theory Spec2Isabelle
  imports Complex_Main "HOL-Library.Word"
begin

section \<open>Geometry, identifiers and messages\<close>

text \<open>
  Positions are \<open>Eigen::Vector3d\<close> values in the source. They are modelled over the
  reals, so sums and quotients are the exact ones; rounding of doubles is outside the
  model.
\<close>

type_synonym vec3 = "real \<times> real \<times> real"

definition vzero :: vec3 where
  "vzero = (0, 0, 0)"

fun vadd :: "vec3 \<Rightarrow> vec3 \<Rightarrow> vec3" where
  "vadd (a, b, c) (x, y, z) = (a + x, b + y, c + z)"

fun vsub :: "vec3 \<Rightarrow> vec3 \<Rightarrow> vec3" where
  "vsub (a, b, c) (x, y, z) = (a - x, b - y, c - z)"

fun vdiv :: "vec3 \<Rightarrow> nat \<Rightarrow> vec3" where
  "vdiv (a, b, c) n = (a / real n, b / real n, c / real n)"

text \<open>A rotation is kept as its quaternion; \<open>gtsam::Rot3()\<close> is the identity.\<close>

datatype Rot3 = Rot3 real real real real

definition Rot3_identity :: Rot3 where
  "Rot3_identity = Rot3 1 0 0 0"

datatype Pose3 = Pose3 Rot3 vec3

text \<open>
  \<open>Pose3(Rot3(), s).between(Pose3(Rot3(), t))\<close>: both rotations are the identity, so the
  relative pose is the identity rotation with the difference of the translations.
\<close>

definition between_unrotated :: "vec3 \<Rightarrow> vec3 \<Rightarrow> Pose3" where
  "between_unrotated s t = Pose3 Rot3_identity (vsub t s)"

text \<open>
  A \<open>NodeId\<close> is a 64-bit number; \<open>NodeSymbol(c, i)\<close> packs a category character into
  the top byte and an index into the remaining 56 bits.
\<close>

type_synonym NodeId = nat

definition NodeSymbol :: "char \<Rightarrow> nat \<Rightarrow> NodeId" where
  "NodeSymbol c i = of_char c * 2 ^ 56 + i mod 2 ^ 56"

record Header =
  hdr_seq :: nat
  hdr_stamp :: nat
  hdr_frame_id :: string

datatype EdgeType = ODOM | LOOPCLOSE | LANDMARK | REJECTED_LOOPCLOSE | MESH | POSE_MESH | MESH_POSE

record PoseGraphNode =
  pgn_robot_id :: nat
  pgn_key :: nat
  pgn_pose :: Pose3

record PoseGraphEdge =
  pge_key_from :: nat
  pge_key_to :: nat
  pge_type :: EdgeType
  pge_pose :: Pose3

record PoseGraph =
  pg_header :: Header
  pg_nodes :: "PoseGraphNode list"
  pg_edges :: "PoseGraphEdge list"

text \<open>\<open>mergePoseGraphs(new_graph, graph_to_fill)\<close>, returning the filled graph.\<close>

definition mergePoseGraphs :: "PoseGraph \<Rightarrow> PoseGraph \<Rightarrow> PoseGraph" where
  "mergePoseGraphs new_graph graph_to_fill =
     graph_to_fill\<lparr>pg_header := pg_header new_graph,
                   pg_nodes := pg_nodes graph_to_fill @ pg_nodes new_graph,
                   pg_edges := pg_edges graph_to_fill @ pg_edges new_graph\<rparr>"

text \<open>The full-mesh message and the polygon mesh it is converted to.\<close>

record KimeraPgmoMesh =
  msg_vertices :: "vec3 list"
  msg_vertex_stamps :: "nat list"
  msg_triangles :: "(nat \<times> nat \<times> nat) list"

text \<open>
  A \<open>pcl::PolygonMesh\<close>: the cloud's \<open>height\<close> and \<open>width\<close> are unsigned 32-bit
  fields, and their product in \<open>updateDsgMesh\<close> is a 32-bit product.
\<close>

record PolygonMesh =
  cloud_height :: "32 word"
  cloud_width :: "32 word"
  cloud_points :: "vec3 list"
  polygons :: "(nat \<times> nat \<times> nat) list"

text \<open>
  Modelled from the spec: \<open>kimera_pgmo::PgmoMeshMsgToPolygonMesh\<close> belongs to the solver
  library. The specification identifies a mesh that is dropped with one of zero vertices,
  so the converted cloud is taken to be unorganised: one row holding the message's
  vertices, and no row when there is no vertex. The second result is the list of vertex
  stamps.
\<close>

definition PgmoMeshMsgToPolygonMesh :: "KimeraPgmoMesh \<Rightarrow> PolygonMesh \<times> nat list" where
  "PgmoMeshMsgToPolygonMesh m =
     (\<lparr>cloud_height = (if msg_vertices m = [] then 0 else 1),
       cloud_width = of_nat (length (msg_vertices m)),
       cloud_points = msg_vertices m,
       polygons = msg_triangles m\<rparr>,
      msg_vertex_stamps m)"

section \<open>The layered scene graph\<close>

text \<open>
  The scene-graph library (\<open>kimera_dsg\<close>) is a collaborator library outside this
  repository. Its data model is taken from the specification:
  named layers, nodes keyed by a globally unique identifier, and for every node at most
  one parent in the adjacent higher layer. Nodes are kept in an association list; the
  inter-layer edges are kept as a map from a child to its parent, so that the children of
  a node are derived and a node cannot have two parents.
\<close>

datatype LayerId = OBJECTS | PLACES | ROOMS | BUILDINGS

fun layer_rank :: "LayerId \<Rightarrow> nat" where
  "layer_rank OBJECTS = 2"
| "layer_rank PLACES = 3"
| "layer_rank ROOMS = 4"
| "layer_rank BUILDINGS = 5"

record SceneGraphNode =
  node_layer :: LayerId
  node_position :: vec3
  node_color :: "nat \<times> nat \<times> nat"
  node_semantic_label :: nat
  node_name :: string
  pcl_mesh_connections :: "nat list"

record SceneGraphLayer =
  layer_nodes :: "(NodeId \<times> SceneGraphNode) list"
  layer_edges :: "(NodeId \<times> NodeId) list"

record DynamicSceneGraph =
  dsg_layer_ids :: "LayerId list"
  dsg_nodes :: "(NodeId \<times> SceneGraphNode) list"
  dsg_parents :: "(NodeId \<times> NodeId) list"
  dsg_edges :: "(NodeId \<times> NodeId) list"
  dsg_dynamic_nodes :: "(NodeId \<times> NodeId) list"
  dsg_mesh :: "PolygonMesh option"

text \<open>
  \<open>dsg_parents\<close> holds pairs (child, parent); \<open>dsg_edges\<close> holds the edges inside a layer;
  \<open>dsg_dynamic_nodes\<close> maps an agent node to the \<open>external_key\<close> of its attributes.
\<close>

definition hasLayer :: "DynamicSceneGraph \<Rightarrow> LayerId \<Rightarrow> bool" where
  "hasLayer g l = (l \<in> set (dsg_layer_ids g))"

definition hasNode :: "DynamicSceneGraph \<Rightarrow> NodeId \<Rightarrow> bool" where
  "hasNode g i = (map_of (dsg_nodes g) i \<noteq> None)"

definition getNode :: "DynamicSceneGraph \<Rightarrow> NodeId \<Rightarrow> SceneGraphNode option" where
  "getNode g i = map_of (dsg_nodes g) i"

definition nodes_of_layer :: "DynamicSceneGraph \<Rightarrow> LayerId \<Rightarrow> (NodeId \<times> SceneGraphNode) list" where
  "nodes_of_layer g l = filter (\<lambda>p. node_layer (snd p) = l) (dsg_nodes g)"

text \<open>Modelled from the spec: \<open>getLayer\<close> yields no layer when the graph lacks it.\<close>

definition getLayer :: "DynamicSceneGraph \<Rightarrow> LayerId \<Rightarrow> SceneGraphLayer option" where
  "getLayer g l =
     (if hasLayer g l
      then Some \<lparr>layer_nodes = nodes_of_layer g l,
                 layer_edges = filter (\<lambda>e. fst e \<in> fst ` set (nodes_of_layer g l) \<and>
                                            snd e \<in> fst ` set (nodes_of_layer g l)) (dsg_edges g)\<rparr>
      else None)"

definition numNodes :: "SceneGraphLayer \<Rightarrow> nat" where
  "numNodes L = length (layer_nodes L)"

definition layer_hasNode :: "SceneGraphLayer \<Rightarrow> NodeId \<Rightarrow> bool" where
  "layer_hasNode L i = (map_of (layer_nodes L) i \<noteq> None)"

definition layer_getPosition :: "SceneGraphLayer \<Rightarrow> NodeId \<Rightarrow> vec3 option" where
  "layer_getPosition L i = map_option node_position (map_of (layer_nodes L) i)"

definition layer_removeNode :: "SceneGraphLayer \<Rightarrow> NodeId \<Rightarrow> SceneGraphLayer" where
  "layer_removeNode L i =
     L\<lparr>layer_nodes := filter (\<lambda>p. fst p \<noteq> i) (layer_nodes L),
       layer_edges := filter (\<lambda>e. fst e \<noteq> i \<and> snd e \<noteq> i) (layer_edges L)\<rparr>"

definition getParent :: "DynamicSceneGraph \<Rightarrow> NodeId \<Rightarrow> NodeId option" where
  "getParent g i = map_of (dsg_parents g) i"

definition hasParent :: "DynamicSceneGraph \<Rightarrow> NodeId \<Rightarrow> bool" where
  "hasParent g i = (getParent g i \<noteq> None)"

definition children :: "DynamicSceneGraph \<Rightarrow> NodeId \<Rightarrow> NodeId set" where
  "children g p = set (map fst (filter (\<lambda>e. snd e = p) (dsg_parents g)))"

text \<open>Modelled from the spec: removing a node removes every edge that touches it.\<close>

definition removeNode :: "DynamicSceneGraph \<Rightarrow> NodeId \<Rightarrow> DynamicSceneGraph" where
  "removeNode g i =
     g\<lparr>dsg_nodes := filter (\<lambda>p. fst p \<noteq> i) (dsg_nodes g),
       dsg_parents := filter (\<lambda>e. fst e \<noteq> i \<and> snd e \<noteq> i) (dsg_parents g),
       dsg_edges := filter (\<lambda>e. fst e \<noteq> i \<and> snd e \<noteq> i) (dsg_edges g)\<rparr>"

text \<open>
  Modelled from the spec: \<open>emplaceNode\<close> adds the node to the given layer unless the layer
  is missing or the identifier is already used (identifiers are globally unique); a
  refused insertion leaves the graph as it is.
\<close>

definition emplaceNode ::
  "DynamicSceneGraph \<Rightarrow> LayerId \<Rightarrow> NodeId \<Rightarrow> SceneGraphNode \<Rightarrow> DynamicSceneGraph" where
  "emplaceNode g l i n =
     (if hasLayer g l \<and> \<not> hasNode g i
      then g\<lparr>dsg_nodes := dsg_nodes g @ [(i, n\<lparr>node_layer := l\<rparr>)]\<rparr>
      else g)"

text \<open>
  Modelled from the spec: \<open>insertEdge(source, target)\<close>. Between a node and a node of the
  adjacent lower layer the edge makes the source the parent of the target, unless the
  target already has a parent (then nothing changes, which also makes re-insertion of an
  existing edge idempotent). Inside a layer the edge is recorded once. Any other pair is
  refused.
\<close>

definition insertEdge :: "DynamicSceneGraph \<Rightarrow> NodeId \<Rightarrow> NodeId \<Rightarrow> DynamicSceneGraph" where
  "insertEdge g s t =
     (case (getNode g s, getNode g t) of
        (Some a, Some b) \<Rightarrow>
          if layer_rank (node_layer a) = Suc (layer_rank (node_layer b))
          then (if hasParent g t then g else g\<lparr>dsg_parents := dsg_parents g @ [(t, s)]\<rparr>)
          else if node_layer a = node_layer b \<and> (s, t) \<notin> set (dsg_edges g)
          then g\<lparr>dsg_edges := dsg_edges g @ [(s, t)]\<rparr>
          else g
      | _ \<Rightarrow> g)"

definition setPosition :: "DynamicSceneGraph \<Rightarrow> NodeId \<Rightarrow> vec3 \<Rightarrow> DynamicSceneGraph" where
  "setPosition g i c =
     g\<lparr>dsg_nodes := map (\<lambda>p. if fst p = i then (fst p, (snd p)\<lparr>node_position := c\<rparr>) else p)
                        (dsg_nodes g)\<rparr>"

definition setMeshDirectly :: "DynamicSceneGraph \<Rightarrow> PolygonMesh \<Rightarrow> DynamicSceneGraph" where
  "setMeshDirectly g m = g\<lparr>dsg_mesh := Some m\<rparr>"

definition getDynamicNode :: "DynamicSceneGraph \<Rightarrow> NodeId \<Rightarrow> NodeId option" where
  "getDynamicNode g i = map_of (dsg_dynamic_nodes g) i"

text \<open>A loop-closure candidate queued by the front end.\<close>

record LcdResult =
  from_node :: NodeId
  to_node :: NodeId
  to_T_from :: Pose3

record SharedDsgInfo =
  graph :: DynamicSceneGraph
  updated :: bool
  latest_places :: "NodeId set"
  lcd_queue :: "LcdResult list"

section \<open>The deformation solver and the backend state\<close>

text \<open>
  The deformation graph and the rest of the state inherited from \<open>KimeraPgmoInterface\<close>
  (trajectory, timestamps, unconnected nodes) belong to the solver library. The backend
  only calls into it, so that state is represented by the sequence of calls made on it, in
  order. A cycle leaves the solver untouched exactly when it appends no call.
\<close>

datatype pgmo_call =
    ProcessIncrementalMeshGraph PoseGraph
  | ProcessIncrementalPoseGraph PoseGraph
  | AddNewBetween NodeId NodeId Pose3
  | ClearTemporaryStructures
  | AddNewTempNode NodeId Pose3 bool
  | AddTempNodeValence NodeId "nat list" char
  | AddNewTempBetween NodeId NodeId Pose3
  | Optimize
  | DeformMesh PolygonMesh "nat list" char nat real

type_synonym Values = "(nat \<times> Pose3) list"

record MinimumSpanningTreeInfo =
  mst_leaves :: "NodeId set"
  mst_edges :: "(NodeId \<times> NodeId) list"

record LoopClosureLog =
  lc_from :: NodeId
  lc_to :: NodeId
  lc_pose :: Pose3
  lc_internal :: bool

record DsgBackendStatus =
  total_loop_closures :: nat
  new_loop_closures :: nat
  total_factors :: nat
  total_values :: nat
  new_factors :: nat
  new_graph_factors :: nat
  trajectory_len :: nat

definition status_reset :: DsgBackendStatus where
  "status_reset =
     \<lparr>total_loop_closures = 0, new_loop_closures = 0, total_factors = 0, total_values = 0,
      new_factors = 0, new_graph_factors = 0, trajectory_len = 0\<rparr>"

text \<open>
  The collaborators implemented elsewhere are parameters of the model: the spanning-tree
  helper, the solver's queries, the layer reconcilers, graph merging, the room finder, the
  point-cloud centroid, and the constant and the two printing functions used to label a
  building node.

  The counter \<open>num_loop_closures_\<close> is a member inherited from \<open>KimeraPgmoInterface\<close>: this
  file neither declares nor initialises it, reads it back after the critical section to
  set \<open>have_loopclosures_\<close>, and records the loop-closure edges of a pose-graph update
  itself. So the inherited methods \<open>processIncrementalMeshGraph\<close> and
  \<open>processIncrementalPoseGraph\<close> may write it. How much such a call adds to the counter
  is the parameter \<open>inherited_loop_closures\<close>, a function of the call.
\<close>

record externals =
  getMinimumSpanningEdges :: "SceneGraphLayer \<Rightarrow> MinimumSpanningTreeInfo"
  deformMesh :: "pgmo_call list \<Rightarrow> PolygonMesh \<Rightarrow> nat list \<Rightarrow> char \<Rightarrow> PolygonMesh"
  getGtsamValues :: "pgmo_call list \<Rightarrow> Values"
  getGtsamTempValues :: "pgmo_call list \<Rightarrow> Values"
  getGtsamFactors_size :: "pgmo_call list \<Rightarrow> nat"
  trajectory_size :: "pgmo_call list \<Rightarrow> nat"
  dsg_update_funcs ::
    "(DynamicSceneGraph \<Rightarrow> Values \<Rightarrow> Values \<Rightarrow> bool \<Rightarrow> DynamicSceneGraph) list"
  mergeGraph :: "DynamicSceneGraph \<Rightarrow> DynamicSceneGraph \<Rightarrow> DynamicSceneGraph"
  mergeLayer :: "SceneGraphLayer \<Rightarrow> SceneGraphLayer \<Rightarrow> SceneGraphLayer"
  getRemovedNodes :: "SceneGraphLayer \<Rightarrow> NodeId list"
  findRooms :: "SharedDsgInfo \<Rightarrow> NodeId set \<Rightarrow> SharedDsgInfo"
  kBuildingSemanticLabel :: nat
  getLabel :: "NodeId \<Rightarrow> string"
  pcl_centroid :: "vec3 list \<Rightarrow> vec3"
  node_to_string :: "NodeId \<Rightarrow> string"
  inherited_loop_closures :: "pgmo_call \<Rightarrow> nat"

record DsgBackend =
  optimize_on_lc :: bool
  call_update_periodically :: bool
  add_places_to_deformation_graph :: bool
  enable_node_merging :: bool
  pgmo_log :: bool
  room_finder :: bool
  robot_prefix :: char
  robot_vertex_prefix :: char
  num_interp_pts :: nat
  interp_horizon :: real
  building_color :: "nat \<times> nat \<times> nat"
  deformation_graph_updates :: "PoseGraph option"
  pose_graph_updates :: "PoseGraph option"
  last_timestamp :: nat
  latest_mesh :: "KimeraPgmoMesh option"
  have_new_mesh :: bool
  num_loop_closures :: "64 word"
  have_loopclosures :: bool
  loop_closures :: "LoopClosureLog list"
  status :: DsgBackendStatus
  status_rows :: "DsgBackendStatus list"
  deformation_graph :: "pgmo_call list"
  shared_places_copy :: SceneGraphLayer
  unlabeled_place_nodes :: "NodeId set"
  shared_dsg :: SharedDsgInfo
  private_dsg :: SharedDsgInfo

text \<open>
  \<open>room_finder\<close> tells whether the room finder was created (\<open>enable_rooms\<close>);
  \<open>status_rows\<close> is the status file, one row per \<open>logStatus()\<close>. The scoped timers read
  the wall clock and are left out, as is the visualizer thread, which only reads.

  \<open>num_loop_closures_\<close> is compared with and subtracted from a \<open>size_t\<close> in \<open>runPgmo\<close>; it
  is an unsigned 64-bit word here, so every increment and the subtraction wrap around.
\<close>

datatype error = BadOptionalAccess | OutOfRange | CheckFailed

section \<open>Ingestion callbacks\<close>

definition fullMeshCallback :: "KimeraPgmoMesh \<Rightarrow> DsgBackend \<Rightarrow> DsgBackend" where
  "fullMeshCallback msg s = s\<lparr>latest_mesh := Some msg, have_new_mesh := True\<rparr>"

definition deformationGraphCallback :: "PoseGraph \<Rightarrow> DsgBackend \<Rightarrow> DsgBackend" where
  "deformationGraphCallback msg s =
     s\<lparr>deformation_graph_updates :=
          (case deformation_graph_updates s of
             None \<Rightarrow> Some msg
           | Some pending \<Rightarrow> Some (mergePoseGraphs msg pending)),
       last_timestamp := hdr_stamp (pg_header msg)\<rparr>"

definition poseGraphCallback :: "PoseGraph \<Rightarrow> DsgBackend \<Rightarrow> DsgBackend" where
  "poseGraphCallback msg s =
     s\<lparr>pose_graph_updates :=
          (case pose_graph_updates s of
             None \<Rightarrow> Some msg
           | Some pending \<Rightarrow> Some (mergePoseGraphs msg pending))\<rparr>"

section \<open>Loop closures\<close>

definition logIncrementalLoopClosures :: "PoseGraph \<Rightarrow> DsgBackend \<Rightarrow> DsgBackend" where
  "logIncrementalLoopClosures msg s =
     s\<lparr>loop_closures := loop_closures s @
          map (\<lambda>edge. \<lparr>lc_from = NodeSymbol (robot_prefix s) (pge_key_from edge),
                       lc_to = NodeSymbol (robot_prefix s) (pge_key_to edge),
                       lc_pose = pge_pose edge,
                       lc_internal = False\<rparr>)
              (filter (\<lambda>edge. pge_type edge = LOOPCLOSE) (pg_edges msg))\<rparr>"

text \<open>
  The \<open>while\<close> loop of \<open>addInternalLCDToDeformationGraph\<close>: the first argument is the
  queue still to be popped, the second the flag \<open>added_new_loop_closure\<close>. Each round pops
  the front candidate and looks up both agent nodes in the shared graph; \<open>.value()\<close> on a
  missing node throws, which ends the loop with the candidate already popped.
\<close>

fun lcd_loop :: "LcdResult list \<Rightarrow> bool \<Rightarrow> DsgBackend \<Rightarrow> error + bool \<times> DsgBackend" where
  "lcd_loop [] added s = Inr (added, s)"
| "lcd_loop (result # rest) added s =
     (let s1 = s\<lparr>shared_dsg := (shared_dsg s)\<lparr>lcd_queue := rest\<rparr>\<rparr> in
      case getDynamicNode (graph (shared_dsg s1)) (from_node result) of
        None \<Rightarrow> Inl BadOptionalAccess
      | Some from_key \<Rightarrow>
          (case getDynamicNode (graph (shared_dsg s1)) (to_node result) of
             None \<Rightarrow> Inl BadOptionalAccess
           | Some to_key \<Rightarrow>
               lcd_loop rest True
                 (s1\<lparr>deformation_graph := deformation_graph s1 @
                        [AddNewBetween from_key to_key (to_T_from result)],
                      loop_closures := loop_closures s1 @
                        [\<lparr>lc_from = from_node result, lc_to = to_node result,
                          lc_pose = to_T_from result, lc_internal = True\<rparr>],
                      num_loop_closures := num_loop_closures s1 + 1,
                      have_loopclosures := True\<rparr>)))"

definition addInternalLCDToDeformationGraph :: "DsgBackend \<Rightarrow> error + bool \<times> DsgBackend" where
  "addInternalLCDToDeformationGraph s = lcd_loop (lcd_queue (shared_dsg s)) False s"

section \<open>Places as temporary structures of the solver\<close>

text \<open>
  The body of the first loop of \<open>addPlacesToDeformationGraph\<close> for one place node: the
  temporary node is always added; the valence is skipped unless the node is a leaf of the
  spanning tree and has mesh connections.
\<close>

definition place_calls ::
  "MinimumSpanningTreeInfo \<Rightarrow> char \<Rightarrow> NodeId \<times> SceneGraphNode \<Rightarrow> pgmo_call list" where
  "place_calls mst_info prefix id_node_pair =
     AddNewTempNode (fst id_node_pair)
        (Pose3 Rot3_identity (node_position (snd id_node_pair))) False #
     (if fst id_node_pair \<notin> mst_leaves mst_info then []
      else if pcl_mesh_connections (snd id_node_pair) = [] then []
      else [AddTempNodeValence (fst id_node_pair)
              (pcl_mesh_connections (snd id_node_pair)) prefix])"

text \<open>
  The second loop, over the spanning edges. \<open>getPosition\<close> of a node that the layer does
  not hold throws.
\<close>

fun between_calls :: "SceneGraphLayer \<Rightarrow> (NodeId \<times> NodeId) list \<Rightarrow> error + pgmo_call list" where
  "between_calls L [] = Inr []"
| "between_calls L (edge # rest) =
     (case layer_getPosition L (fst edge) of
        None \<Rightarrow> Inl OutOfRange
      | Some source \<Rightarrow>
          (case layer_getPosition L (snd edge) of
             None \<Rightarrow> Inl OutOfRange
           | Some target \<Rightarrow>
               (case between_calls L rest of
                  Inl e \<Rightarrow> Inl e
                | Inr calls \<Rightarrow>
                    Inr (AddNewTempBetween (fst edge) (snd edge)
                           (between_unrotated source target) # calls))))"

definition addPlacesToDeformationGraph :: "externals \<Rightarrow> DsgBackend \<Rightarrow> error + DsgBackend" where
  "addPlacesToDeformationGraph c s =
     (if layer_nodes (shared_places_copy s) = [] then Inr s
      else
        let mst_info = getMinimumSpanningEdges c (shared_places_copy s);
            cleared = deformation_graph s @ [ClearTemporaryStructures];
            with_nodes = cleared @
              concat (map (place_calls mst_info (robot_vertex_prefix s))
                        (layer_nodes (shared_places_copy s)))
        in case between_calls (shared_places_copy s) (mst_edges mst_info) of
             Inl e \<Rightarrow> Inl e
           | Inr calls \<Rightarrow> Inr (s\<lparr>deformation_graph := with_nodes @ calls\<rparr>))"

section \<open>Mesh update, reconcilers and optimization\<close>

text \<open>
  \<open>updateDsgMesh\<close> returns early without a mesh, without a new mesh, and after the
  conversion when the cloud has no point. Publishing the visualisation markers at its end
  is left out.
\<close>

definition updateDsgMesh :: "externals \<Rightarrow> DsgBackend \<Rightarrow> DsgBackend" where
  "updateDsgMesh c s =
     (case latest_mesh s of
        None \<Rightarrow> s
      | Some msg \<Rightarrow>
          if \<not> have_new_mesh s then s
          else
            let input_mesh = fst (PgmoMeshMsgToPolygonMesh msg);
                mesh_vertex_stamps = snd (PgmoMeshMsgToPolygonMesh msg);
                s1 = s\<lparr>have_new_mesh := False\<rparr>
            in if cloud_height input_mesh * cloud_width input_mesh = 0 then s1
               else
                 let opt_mesh = deformMesh c (deformation_graph s1) input_mesh
                                  mesh_vertex_stamps (robot_vertex_prefix s1)
                 in s1\<lparr>deformation_graph := deformation_graph s1 @
                          [DeformMesh input_mesh mesh_vertex_stamps (robot_vertex_prefix s1)
                             (num_interp_pts s1) (interp_horizon s1)],
                        private_dsg := (private_dsg s1)
                          \<lparr>graph := setMeshDirectly (graph (private_dsg s1)) opt_mesh,
                           updated := True\<rparr>\<rparr>)"

definition callUpdateFunctions :: "externals \<Rightarrow> Values \<Rightarrow> Values \<Rightarrow> DsgBackend \<Rightarrow> DsgBackend" where
  "callUpdateFunctions c places_values pgmo_values s =
     s\<lparr>private_dsg := (private_dsg s)
          \<lparr>graph := fold (\<lambda>update_func g.
                            update_func g places_values pgmo_values (enable_node_merging s))
                      (dsg_update_funcs c) (graph (private_dsg s))\<rparr>\<rparr>"

definition optimize :: "externals \<Rightarrow> DsgBackend \<Rightarrow> error + DsgBackend" where
  "optimize c s =
     (case (if add_places_to_deformation_graph s then addPlacesToDeformationGraph c s
            else Inr s) of
        Inl e \<Rightarrow> Inl e
      | Inr s1 \<Rightarrow>
          let s2 = s1\<lparr>deformation_graph := deformation_graph s1 @ [Optimize]\<rparr>;
              s3 = updateDsgMesh c s2;
              pgmo_values = getGtsamValues c (deformation_graph s3);
              places_values = getGtsamTempValues c (deformation_graph s3)
          in Inr (callUpdateFunctions c places_values pgmo_values s3))"

section \<open>Merging the front-end graph\<close>

definition updatePrivateDsg :: "externals \<Rightarrow> DsgBackend \<Rightarrow> DsgBackend" where
  "updatePrivateDsg c s =
     (if updated (shared_dsg s)
      then
        s\<lparr>private_dsg := (private_dsg s)
             \<lparr>graph := mergeGraph c (graph (private_dsg s)) (graph (shared_dsg s)),
              latest_places := latest_places (shared_dsg s)\<rparr>,
          shared_places_copy :=
            (case getLayer (graph (shared_dsg s)) PLACES of
               None \<Rightarrow> shared_places_copy s
             | Some shared_places \<Rightarrow>
                 fold (\<lambda>place_id L. layer_removeNode L place_id)
                   (getRemovedNodes c shared_places)
                   (mergeLayer c (shared_places_copy s) shared_places)),
          shared_dsg := (shared_dsg s)\<lparr>updated := False\<rparr>\<rparr>
      else s)"

section \<open>Rooms and the building node\<close>

definition getNodesForRoomDetection :: "DsgBackend \<Rightarrow> NodeId set \<Rightarrow> error + NodeId set" where
  "getNodesForRoomDetection s latest =
     (case getLayer (graph (private_dsg s)) ROOMS of
        None \<Rightarrow> Inl BadOptionalAccess
      | Some rooms \<Rightarrow>
          (case getLayer (graph (private_dsg s)) PLACES of
             None \<Rightarrow> Inl BadOptionalAccess
           | Some places \<Rightarrow>
               Inr (latest \<union>
                    (\<Union>id_node_pair \<in> set (layer_nodes rooms).
                        children (graph (private_dsg s)) (fst id_node_pair)) \<union>
                    Set.filter (layer_hasNode places) (unlabeled_place_nodes s))))"

definition storeUnlabeledPlaces :: "DsgBackend \<Rightarrow> NodeId set \<Rightarrow> error + DsgBackend" where
  "storeUnlabeledPlaces s active_nodes =
     (case getLayer (graph (private_dsg s)) PLACES of
        None \<Rightarrow> Inl BadOptionalAccess
      | Some places \<Rightarrow>
          Inr (s\<lparr>unlabeled_place_nodes :=
                   Set.filter (\<lambda>node_id. layer_hasNode places node_id \<and>
                                          \<not> hasParent (graph (private_dsg s)) node_id)
                     active_nodes\<rparr>))"

definition updateRoomsNodes :: "externals \<Rightarrow> DsgBackend \<Rightarrow> error + DsgBackend" where
  "updateRoomsNodes c s =
     (if room_finder s
      then (case getNodesForRoomDetection s (latest_places (private_dsg s)) of
              Inl e \<Rightarrow> Inl e
            | Inr active_place_nodes \<Rightarrow>
                storeUnlabeledPlaces
                  (s\<lparr>private_dsg := findRooms c (private_dsg s) active_place_nodes\<rparr>)
                  active_place_nodes)
      else Inr s)"

definition building_node_id :: NodeId where
  "building_node_id = NodeSymbol (CHR ''B'') 0"

definition rooms_centroid :: "SceneGraphLayer \<Rightarrow> vec3" where
  "rooms_centroid rooms_layer =
     vdiv (foldl vadd vzero (map (\<lambda>id_node_pair. node_position (snd id_node_pair))
                               (layer_nodes rooms_layer)))
          (numNodes rooms_layer)"

definition updateBuildingNode :: "externals \<Rightarrow> DsgBackend \<Rightarrow> error + DsgBackend" where
  "updateBuildingNode c s =
     (let g = graph (private_dsg s) in
      case getLayer g ROOMS of
        None \<Rightarrow> Inl BadOptionalAccess
      | Some rooms_layer \<Rightarrow>
          if numNodes rooms_layer = 0
          then Inr (if hasNode g building_node_id
                    then s\<lparr>private_dsg := (private_dsg s)
                             \<lparr>graph := removeNode g building_node_id\<rparr>\<rparr>
                    else s)
          else
            let centroid = rooms_centroid rooms_layer;
                g1 = (if \<not> hasNode g building_node_id
                      then emplaceNode g BUILDINGS building_node_id
                             \<lparr>node_layer = BUILDINGS,
                              node_position = centroid,
                              node_color = building_color s,
                              node_semantic_label = kBuildingSemanticLabel c,
                              node_name = getLabel c building_node_id,
                              pcl_mesh_connections = []\<rparr>
                      else setPosition g building_node_id centroid);
                g2 = fold (\<lambda>id_node_pair g'. insertEdge g' building_node_id (fst id_node_pair))
                       (layer_nodes rooms_layer) g1
            in Inr (s\<lparr>private_dsg := (private_dsg s)\<lparr>graph := g2\<rparr>\<rparr>))"

section \<open>One iteration of the backend loop\<close>

definition logStatus :: "DsgBackend \<Rightarrow> DsgBackend" where
  "logStatus s = s\<lparr>status_rows := status_rows s @ [status s]\<rparr>"

text \<open>
  The two \<open>if\<close> blocks that open the critical section of \<open>runPgmo\<close>. The local
  \<open>have_graph_updates\<close> is declared without an initialiser and is assigned only inside
  these blocks; the first argument is the indeterminate value it holds when neither block
  runs. The result pairs the flag with the new state. The inherited methods
  \<open>processIncrementalMeshGraph\<close> and \<open>processIncrementalPoseGraph\<close> belong to the solver
  library and appear as calls on it; the members they are passed (\<open>trajectory_\<close>,
  \<open>timestamps_\<close>, \<open>unconnected_nodes_\<close>) are part of the state that the call sequence
  stands for. Each of the two calls raises the inherited counter by what
  \<open>inherited_loop_closures\<close> gives for it.
\<close>

definition drain_updates :: "externals \<Rightarrow> bool \<Rightarrow> DsgBackend \<Rightarrow> bool \<times> DsgBackend" where
  "drain_updates c indeterminate s =
     (let (flag1, s1) =
            (case deformation_graph_updates s of
               None \<Rightarrow> (indeterminate, s)
             | Some upd \<Rightarrow>
                 (True,
                  s\<lparr>status := (status s)
                       \<lparr>new_graph_factors := length (pg_edges upd),
                        new_factors := new_factors (status s) + length (pg_edges upd)\<rparr>,
                    deformation_graph := deformation_graph s @ [ProcessIncrementalMeshGraph upd],
                    num_loop_closures :=
                      num_loop_closures s +
                      of_nat (inherited_loop_closures c (ProcessIncrementalMeshGraph upd)),
                    deformation_graph_updates := None\<rparr>))
      in case pose_graph_updates s1 of
           None \<Rightarrow> (flag1, s1)
         | Some upd \<Rightarrow>
             (True,
              (logIncrementalLoopClosures upd
                 (s1\<lparr>status := (status s1)
                        \<lparr>new_factors := new_factors (status s1) + length (pg_edges upd)\<rparr>,
                      deformation_graph := deformation_graph s1 @
                        [ProcessIncrementalPoseGraph upd],
                      num_loop_closures :=
                        num_loop_closures s1 +
                        of_nat (inherited_loop_closures c (ProcessIncrementalPoseGraph upd))\<rparr>))
              \<lparr>pose_graph_updates := None\<rparr>))"

text \<open>
  The whole critical section: the drains, then the internal loop closures, whose boolean
  result the caller drops.
\<close>

definition pgmo_critical_section ::
  "externals \<Rightarrow> bool \<Rightarrow> DsgBackend \<Rightarrow> error + bool \<times> DsgBackend" where
  "pgmo_critical_section c indeterminate s =
     (let (have_graph_updates, s1) = drain_updates c indeterminate s in
      case addInternalLCDToDeformationGraph s1 of
        Inl e \<Rightarrow> Inl e
      | Inr (added, s2) \<Rightarrow> Inr (have_graph_updates, s2))"

definition record_status :: "externals \<Rightarrow> 64 word \<Rightarrow> DsgBackend \<Rightarrow> DsgBackend" where
  "record_status c prev_loop_closures s =
     (let s1 = (if num_loop_closures s > 0
                then s\<lparr>status := (status s)
                         \<lparr>total_loop_closures := unat (num_loop_closures s),
                          new_loop_closures :=
                            unat (num_loop_closures s - prev_loop_closures)\<rparr>,
                       have_loopclosures := True\<rparr>
                else s)
      in s1\<lparr>status := (status s1)
               \<lparr>trajectory_len := trajectory_size c (deformation_graph s1),
                total_factors := getGtsamFactors_size c (deformation_graph s1),
                total_values := length (getGtsamValues c (deformation_graph s1))\<rparr>\<rparr>)"

text \<open>
  The critical section on the private graph. Without arguments \<open>callUpdateFunctions\<close>
  passes empty value sets.
\<close>

definition private_dsg_critical_section ::
  "externals \<Rightarrow> bool \<Rightarrow> DsgBackend \<Rightarrow> error + DsgBackend" where
  "private_dsg_critical_section c have_graph_updates s =
     (let s1 = updatePrivateDsg c s in
      case (if have_graph_updates \<and> optimize_on_lc s1 \<and> have_loopclosures s1
            then optimize c s1
            else if call_update_periodically s1
            then Inr (callUpdateFunctions c [] [] (updateDsgMesh c s1))
            else Inr s1) of
        Inl e \<Rightarrow> Inl e
      | Inr s2 \<Rightarrow> Inr (s2\<lparr>private_dsg := (private_dsg s2)\<lparr>updated := True\<rparr>\<rparr>))"

text \<open>The body of the \<open>while\<close> loop of \<open>runPgmo\<close>.\<close>

definition runPgmo_iteration :: "externals \<Rightarrow> bool \<Rightarrow> DsgBackend \<Rightarrow> error + DsgBackend" where
  "runPgmo_iteration c indeterminate s =
     (let s0 = s\<lparr>status := status_reset\<rparr>;
          prev_loop_closures = num_loop_closures s0
      in case pgmo_critical_section c indeterminate s0 of
           Inl e \<Rightarrow> Inl e
         | Inr (have_graph_updates, s1) \<Rightarrow>
             (case private_dsg_critical_section c have_graph_updates
                     (record_status c prev_loop_closures s1) of
                Inl e \<Rightarrow> Inl e
              | Inr s2 \<Rightarrow>
                  (case updateRoomsNodes c
                          (if have_graph_updates \<and> pgmo_log s2 then logStatus s2 else s2) of
                     Inl e \<Rightarrow> Inl e
                   | Inr s3 \<Rightarrow> updateBuildingNode c s3)))"

section \<open>Batch mode: the building finder\<close>

definition batch_building_id :: NodeId where
  "batch_building_id = NodeSymbol (CHR ''B'') 1"

text \<open>
  \<open>findBuildings(scene_graph, color)\<close>: \<open>None\<close> stands for a null pointer. The centroid is
  accumulated by a point-cloud helper in single precision, \<open>pcl_centroid\<close>, and the
  name is the identifier printed by \<open>std::to_string\<close>.
\<close>

definition findBuildings ::
  "externals \<Rightarrow> DynamicSceneGraph option \<Rightarrow> nat \<times> nat \<times> nat \<Rightarrow> error + DynamicSceneGraph" where
  "findBuildings c scene_graph color =
     (case scene_graph of
        None \<Rightarrow> Inl CheckFailed
      | Some g \<Rightarrow>
          (case getLayer g ROOMS of
             None \<Rightarrow> Inl CheckFailed
           | Some room_layer \<Rightarrow>
               let building_attrs =
                     \<lparr>node_layer = BUILDINGS,
                      node_position =
                        pcl_centroid c (map (\<lambda>id_node_pair. node_position (snd id_node_pair))
                                          (layer_nodes room_layer)),
                      node_color = color,
                      node_semantic_label = kBuildingSemanticLabel c,
                      node_name = node_to_string c batch_building_id,
                      pcl_mesh_connections = []\<rparr>;
                   g1 = emplaceNode g BUILDINGS batch_building_id building_attrs
               in Inr (fold (\<lambda>id_node_pair g'. insertEdge g' batch_building_id (fst id_node_pair))
                         (layer_nodes room_layer) g1)))"

section \<open>Deliveries and start-up state\<close>

text \<open>A message delivered by the transport to one of the three subscriber callbacks.\<close>

datatype incoming = MeshGraphMsg PoseGraph | PoseGraphMsg PoseGraph | FullMeshMsg KimeraPgmoMesh

fun deliver :: "incoming \<Rightarrow> DsgBackend \<Rightarrow> DsgBackend" where
  "deliver (MeshGraphMsg msg) s = deformationGraphCallback msg s"
| "deliver (PoseGraphMsg msg) s = poseGraphCallback msg s"
| "deliver (FullMeshMsg msg) s = fullMeshCallback msg s"

fun mesh_graphs_of :: "incoming list \<Rightarrow> PoseGraph list" where
  "mesh_graphs_of [] = []"
| "mesh_graphs_of (MeshGraphMsg msg # rest) = msg # mesh_graphs_of rest"
| "mesh_graphs_of (_ # rest) = mesh_graphs_of rest"

fun pose_graphs_of :: "incoming list \<Rightarrow> PoseGraph list" where
  "pose_graphs_of [] = []"
| "pose_graphs_of (PoseGraphMsg msg # rest) = msg # pose_graphs_of rest"
| "pose_graphs_of (_ # rest) = pose_graphs_of rest"

text \<open>A graph with the default layers and nothing in them.\<close>

definition empty_graph :: DynamicSceneGraph where
  "empty_graph =
     \<lparr>dsg_layer_ids = [OBJECTS, PLACES, ROOMS, BUILDINGS], dsg_nodes = [], dsg_parents = [],
      dsg_edges = [], dsg_dynamic_nodes = [], dsg_mesh = None\<rparr>"

definition empty_dsg_info :: SharedDsgInfo where
  "empty_dsg_info = \<lparr>graph = empty_graph, updated = False, latest_places = {}, lcd_queue = []\<rparr>"

text \<open>
  The state built by the constructor when no parameter overrides a default: the flags of
  the initialiser list, rooms enabled, logging off, robot 0 with its two key prefixes, the
  default building colour scaled to bytes. The two interpolation settings of the solver
  interface are read by \<open>loadParameters\<close> and are arguments here. The inherited counter,
  which this constructor does not set, is taken to start at 0.
\<close>

definition DsgBackend_init :: "SharedDsgInfo \<Rightarrow> SharedDsgInfo \<Rightarrow> nat \<Rightarrow> real \<Rightarrow> DsgBackend" where
  "DsgBackend_init dsg backend_dsg interp_pts horizon =
     \<lparr>optimize_on_lc = True, call_update_periodically = True,
      add_places_to_deformation_graph = True, enable_node_merging = True,
      pgmo_log = False, room_finder = True,
      robot_prefix = CHR ''a'', robot_vertex_prefix = CHR ''s'',
      num_interp_pts = interp_pts, interp_horizon = horizon,
      building_color = (168, 7, 193),
      deformation_graph_updates = None, pose_graph_updates = None, last_timestamp = 0,
      latest_mesh = None, have_new_mesh = False,
      num_loop_closures = 0, have_loopclosures = False, loop_closures = [],
      status = status_reset, status_rows = [], deformation_graph = [],
      shared_places_copy = \<lparr>layer_nodes = [], layer_edges = []\<rparr>,
      unlabeled_place_nodes = {},
      shared_dsg = dsg, private_dsg = backend_dsg\<rparr>"

section \<open>Loop-closure bookkeeping and the environment\<close>

text \<open>
  The between-factor that the loop of \<open>addInternalLCDToDeformationGraph\<close> adds for a
  candidate, and the condition under which both of its lookups succeed.
\<close>

definition lcd_between :: "DynamicSceneGraph \<Rightarrow> LcdResult \<Rightarrow> pgmo_call" where
  "lcd_between g r =
     AddNewBetween (the (getDynamicNode g (from_node r))) (the (getDynamicNode g (to_node r)))
       (to_T_from r)"

definition lcd_resolvable :: "DynamicSceneGraph \<Rightarrow> LcdResult \<Rightarrow> bool" where
  "lcd_resolvable g r =
     (getDynamicNode g (from_node r) \<noteq> None \<and> getDynamicNode g (to_node r) \<noteq> None)"

text \<open>
  What happens around the backend thread: a message is delivered, the front end queues a
  loop-closure candidate or publishes a new shared graph, or the loop runs one iteration
  (with the value its uninitialised flag happens to hold).
\<close>

datatype event =
    Delivery incoming
  | LoopClosureFound LcdResult
  | FrontEndUpdate DynamicSceneGraph "NodeId set"
  | Iteration bool

fun step :: "externals \<Rightarrow> event \<Rightarrow> DsgBackend \<Rightarrow> error + DsgBackend" where
  "step c (Delivery msg) s = Inr (deliver msg s)"
| "step c (LoopClosureFound r) s =
     Inr (s\<lparr>shared_dsg := (shared_dsg s)\<lparr>lcd_queue := lcd_queue (shared_dsg s) @ [r]\<rparr>\<rparr>)"
| "step c (FrontEndUpdate g latest) s =
     Inr (s\<lparr>shared_dsg := (shared_dsg s)\<lparr>graph := g, latest_places := latest, updated := True\<rparr>\<rparr>)"
| "step c (Iteration indeterminate) s = runPgmo_iteration c indeterminate s"

fun run :: "externals \<Rightarrow> event list \<Rightarrow> DsgBackend \<Rightarrow> error + DsgBackend" where
  "run c [] s = Inr s"
| "run c (e # es) s = (case step c e s of Inl x \<Rightarrow> Inl x | Inr s1 \<Rightarrow> run c es s1)"

text \<open>
  What the inherited methods add to the counter: in one drain, for the updates pending
  in a state; and over a run, summed over its iterations.
\<close>

definition drained_inherited :: "externals \<Rightarrow> DsgBackend \<Rightarrow> nat" where
  "drained_inherited c s =
     (case deformation_graph_updates s of
        None \<Rightarrow> 0
      | Some upd \<Rightarrow> inherited_loop_closures c (ProcessIncrementalMeshGraph upd)) +
     (case pose_graph_updates s of
        None \<Rightarrow> 0
      | Some upd \<Rightarrow> inherited_loop_closures c (ProcessIncrementalPoseGraph upd))"




text \<open>The three kinds of temporary structure among the calls made on the solver.\<close>

fun is_temp_node :: "pgmo_call \<Rightarrow> bool" where
  "is_temp_node (AddNewTempNode i p b) = True"
| "is_temp_node _ = False"

fun is_temp_valence :: "pgmo_call \<Rightarrow> bool" where
  "is_temp_valence (AddTempNodeValence i vs prefix) = True"
| "is_temp_valence _ = False"

fun is_temp_between :: "pgmo_call \<Rightarrow> bool" where
  "is_temp_between (AddNewTempBetween a b p) = True"
| "is_temp_between _ = False"

text \<open>
  The temporary between-factor of a spanning edge: the relative pose of the two places,
  which carry no rotation.
\<close>

definition temp_between_of :: "SceneGraphLayer \<Rightarrow> NodeId \<times> NodeId \<Rightarrow> pgmo_call" where
  "temp_between_of L edge =
     AddNewTempBetween (fst edge) (snd edge)
       (between_unrotated (the (layer_getPosition L (fst edge)))
                          (the (layer_getPosition L (snd edge))))"

section \<open>Notions used to state the graph properties\<close>

text \<open>
  The mean of a list of positions, component by component; the second loop of
  \<open>updateBuildingNode\<close> and of \<open>findBuildings\<close>, which links every room to the building
  node; and the active place set in the words of the specification: the children of all
  room nodes, the places newly activated, and the unlabeled places still in the places
  layer.
\<close>

definition mean_position :: "vec3 list \<Rightarrow> vec3" where
  "mean_position ps =
     (sum_list (map fst ps) / real (length ps),
      sum_list (map (\<lambda>p. fst (snd p)) ps) / real (length ps),
      sum_list (map (\<lambda>p. snd (snd p)) ps) / real (length ps))"

definition link_rooms ::
  "NodeId \<Rightarrow> (NodeId \<times> SceneGraphNode) list \<Rightarrow> DynamicSceneGraph \<Rightarrow> DynamicSceneGraph" where
  "link_rooms b rooms g = fold (\<lambda>id_node_pair g'. insertEdge g' b (fst id_node_pair)) rooms g"


section \<open>Example inputs\<close>

definition hdr :: "nat \<Rightarrow> Header" where
  "hdr t = \<lparr>hdr_seq = t, hdr_stamp = 1000 * t, hdr_frame_id = ''world''\<rparr>"

definition pg_node :: "nat \<Rightarrow> PoseGraphNode" where
  "pg_node k = \<lparr>pgn_robot_id = 0, pgn_key = k, pgn_pose = Pose3 Rot3_identity (real k, 0, 0)\<rparr>"

definition pg_edge :: "EdgeType \<Rightarrow> nat \<Rightarrow> nat \<Rightarrow> PoseGraphEdge" where
  "pg_edge ty a b = \<lparr>pge_key_from = a, pge_key_to = b, pge_type = ty,
                     pge_pose = Pose3 Rot3_identity (real b - real a, 0, 0)\<rparr>"

definition pose_msg_1 :: PoseGraph where
  "pose_msg_1 = \<lparr>pg_header = hdr 1, pg_nodes = [pg_node 0, pg_node 1], pg_edges = [pg_edge ODOM 0 1]\<rparr>"

definition pose_msg_2 :: PoseGraph where
  "pose_msg_2 = \<lparr>pg_header = hdr 2, pg_nodes = [pg_node 2], pg_edges = [pg_edge ODOM 1 2, pg_edge LOOPCLOSE 2 0]\<rparr>"

definition mesh_msg_1 :: PoseGraph where
  "mesh_msg_1 = \<lparr>pg_header = hdr 3, pg_nodes = [pg_node 7], pg_edges = [pg_edge MESH 7 7]\<rparr>"

definition backend_0 :: DsgBackend where
  "backend_0 = DsgBackend_init empty_dsg_info empty_dsg_info 4 10"

definition idle_externals :: externals where
  "idle_externals =
     \<lparr>getMinimumSpanningEdges = (\<lambda>L. \<lparr>mst_leaves = {}, mst_edges = []\<rparr>),
      deformMesh = (\<lambda>calls m stamps prefix. m),
      getGtsamValues = (\<lambda>calls. []),
      getGtsamTempValues = (\<lambda>calls. []),
      getGtsamFactors_size = length,
      trajectory_size = (\<lambda>calls. 0),
      dsg_update_funcs = [],
      mergeGraph = (\<lambda>g other. g),
      mergeLayer = (\<lambda>L other. other),
      getRemovedNodes = (\<lambda>L. []),
      findRooms = (\<lambda>info active. info),
      kBuildingSemanticLabel = 22,
      getLabel = (\<lambda>i. ''B(0)''),
      pcl_centroid = (\<lambda>ps. vzero),
      node_to_string = (\<lambda>i. ''B1''),
      inherited_loop_closures = (\<lambda>call. 0)\<rparr>"



definition agents_graph :: DynamicSceneGraph where
  "agents_graph = empty_graph\<lparr>dsg_dynamic_nodes := [(1, 101), (2, 102), (3, 103)]\<rparr>"

definition candidate :: "NodeId \<Rightarrow> NodeId \<Rightarrow> LcdResult" where
  "candidate a b = \<lparr>from_node = a, to_node = b, to_T_from = Pose3 Rot3_identity (0, 0, 0)\<rparr>"

definition backend_agents :: DsgBackend where
  "backend_agents =
     DsgBackend_init (empty_dsg_info\<lparr>graph := agents_graph\<rparr>) empty_dsg_info 4 10"




definition lc_found_backend :: DsgBackend where
  "lc_found_backend = backend_agents\<lparr>shared_dsg := (shared_dsg backend_agents)
                   \<lparr>lcd_queue := [candidate 3 1]\<rparr>\<rparr>"

definition quiet_backend :: DsgBackend where
  "quiet_backend = backend_agents\<lparr>call_update_periodically := False\<rparr>"

definition quiet_lc_backend :: DsgBackend where
  "quiet_lc_backend = lc_found_backend\<lparr>call_update_periodically := False\<rparr>"

definition place_a :: SceneGraphNode where
  "place_a = \<lparr>node_layer = PLACES, node_position = (0, 0, 0), node_color = (0, 0, 0),
              node_semantic_label = 0, node_name = ''p1'', pcl_mesh_connections = [4, 5]\<rparr>"

definition place_b :: SceneGraphNode where
  "place_b = \<lparr>node_layer = PLACES, node_position = (2, 0, 0), node_color = (0, 0, 0),
              node_semantic_label = 0, node_name = ''p2'', pcl_mesh_connections = [6]\<rparr>"

definition place_c :: SceneGraphNode where
  "place_c = \<lparr>node_layer = PLACES, node_position = (2, 3, 0), node_color = (0, 0, 0),
              node_semantic_label = 0, node_name = ''p3'', pcl_mesh_connections = []\<rparr>"

definition three_places :: SceneGraphLayer where
  "three_places = \<lparr>layer_nodes = [(11, place_a), (12, place_b), (13, place_c)],
                   layer_edges = [(11, 12), (12, 13), (11, 13)]\<rparr>"

definition chain_externals :: externals where
  "chain_externals = idle_externals
     \<lparr>getMinimumSpanningEdges := (\<lambda>L. \<lparr>mst_leaves = {11, 13}, mst_edges = [(11, 12), (12, 13)]\<rparr>)\<rparr>"

definition places_backend :: DsgBackend where
  "places_backend = backend_0
     \<lparr>shared_places_copy := three_places,
      deformation_graph := [AddNewTempNode 99 (Pose3 Rot3_identity (1, 1, 1)) False]\<rparr>"

definition empty_mesh_msg :: KimeraPgmoMesh where
  "empty_mesh_msg = \<lparr>msg_vertices = [], msg_vertex_stamps = [], msg_triangles = []\<rparr>"

definition old_mesh :: PolygonMesh where
  "old_mesh = \<lparr>cloud_height = 1, cloud_width = 3,
               cloud_points = [(0, 0, 0), (1, 0, 0), (0, 1, 0)], polygons = [(0, 1, 2)]\<rparr>"

definition empty_mesh_backend :: DsgBackend where
  "empty_mesh_backend =
     fullMeshCallback empty_mesh_msg
       (backend_0\<lparr>private_dsg := empty_dsg_info\<lparr>graph := empty_graph\<lparr>dsg_mesh := Some old_mesh\<rparr>\<rparr>\<rparr>)"

definition room_node :: "vec3 \<Rightarrow> SceneGraphNode" where
  "room_node pos = \<lparr>node_layer = ROOMS, node_position = pos, node_color = (0, 0, 0),
                    node_semantic_label = 1, node_name = ''room'', pcl_mesh_connections = []\<rparr>"

definition place_node :: "vec3 \<Rightarrow> SceneGraphNode" where
  "place_node pos = \<lparr>node_layer = PLACES, node_position = pos, node_color = (0, 0, 0),
                     node_semantic_label = 0, node_name = ''place'', pcl_mesh_connections = []\<rparr>"

definition two_rooms_graph :: DynamicSceneGraph where
  "two_rooms_graph = empty_graph
     \<lparr>dsg_nodes := [(11, place_node (0, 0, 0)), (21, room_node (0, 0, 0)),
                    (12, place_node (1, 0, 0)), (22, room_node (4, 2, 0)),
                    (13, place_node (5, 5, 0)), (14, place_node (6, 5, 0))],
      dsg_parents := [(11, 21), (12, 22)]\<rparr>"

definition rooms_backend :: DsgBackend where
  "rooms_backend = backend_0\<lparr>private_dsg := empty_dsg_info\<lparr>graph := two_rooms_graph\<rparr>\<rparr>"



text \<open>
  Graphs for the batch-mode building finder: one without a buildings layer, one whose
  room is already the child of the incremental building node ('B', 0), and one in which
  the identifier ('B', 1) names a place. The point-cloud helper of \<open>centroid_externals\<close>
  returns the mean of the points it is given, and the origin when it is given none.
\<close>

definition building_node :: "vec3 \<Rightarrow> SceneGraphNode" where
  "building_node pos = \<lparr>node_layer = BUILDINGS, node_position = pos, node_color = (0, 0, 0),
                        node_semantic_label = 22, node_name = ''building'',
                        pcl_mesh_connections = []\<rparr>"

definition rooms_only_graph :: DynamicSceneGraph where
  "rooms_only_graph = empty_graph
     \<lparr>dsg_layer_ids := [OBJECTS, PLACES, ROOMS],
      dsg_nodes := [(21, room_node (0, 0, 0))]\<rparr>"

definition housed_room_graph :: DynamicSceneGraph where
  "housed_room_graph = empty_graph
     \<lparr>dsg_nodes := [(building_node_id, building_node (0, 0, 0)), (21, room_node (0, 0, 0))],
      dsg_parents := [(21, building_node_id)]\<rparr>"

definition taken_id_graph :: DynamicSceneGraph where
  "taken_id_graph = empty_graph
     \<lparr>dsg_nodes := [(batch_building_id, place_node (0, 0, 0)), (21, room_node (0, 0, 0))]\<rparr>"

definition centroid_externals :: externals where
  "centroid_externals =
     idle_externals\<lparr>pcl_centroid := (\<lambda>ps. if ps = [] then vzero else mean_position ps)\<rparr>"

section \<open>Unfolding sets for evaluation\<close>

lemmas backend_defs =
  runPgmo_iteration_def pgmo_critical_section_def drain_updates_def
  addInternalLCDToDeformationGraph_def logIncrementalLoopClosures_def record_status_def
  private_dsg_critical_section_def updatePrivateDsg_def optimize_def
  addPlacesToDeformationGraph_def place_calls_def updateDsgMesh_def callUpdateFunctions_def
  updateRoomsNodes_def getNodesForRoomDetection_def storeUnlabeledPlaces_def
  updateBuildingNode_def rooms_centroid_def logStatus_def status_reset_def
  PgmoMeshMsgToPolygonMesh_def building_node_id_def NodeSymbol_def

lemmas graph_defs =
  getDynamicNode_def getLayer_def hasLayer_def nodes_of_layer_def numNodes_def hasNode_def
  getNode_def getParent_def hasParent_def children_def layer_hasNode_def layer_getPosition_def
  layer_removeNode_def removeNode_def emplaceNode_def insertEdge_def setPosition_def
  setMeshDirectly_def

lemmas example_defs =
  idle_externals_def agents_graph_def candidate_def backend_agents_def
  DsgBackend_init_def empty_dsg_info_def empty_graph_def

lemmas graph_example_defs =
  rooms_backend_def two_rooms_graph_def room_node_def place_node_def backend_0_def
  DsgBackend_init_def empty_dsg_info_def empty_graph_def idle_externals_def

section \<open>Ingestion and draining\<close>

lemma pose_acc_from_Some:
  "pose_graph_updates s = Some g \<Longrightarrow>
   pose_graph_updates (fold deliver msgs s) =
     Some \<lparr>pg_header = pg_header (last (g # pose_graphs_of msgs)),
           pg_nodes = pg_nodes g @ concat (map pg_nodes (pose_graphs_of msgs)),
           pg_edges = pg_edges g @ concat (map pg_edges (pose_graphs_of msgs))\<rparr>"
proof (induction msgs arbitrary: s g)
  case Nil
  then show ?case by simp
next
  case (Cons m msgs)
  show ?case
  proof (cases m)
    case (PoseGraphMsg x)
    have "pose_graph_updates (deliver m s) = Some (mergePoseGraphs x g)"
      using Cons.prems PoseGraphMsg by (simp add: poseGraphCallback_def)
    from Cons.IH[OF this] show ?thesis
      using PoseGraphMsg by (simp add: mergePoseGraphs_def)
  next
    case (MeshGraphMsg x)
    have "pose_graph_updates (deliver m s) = Some g"
      using Cons.prems MeshGraphMsg by (simp add: deformationGraphCallback_def)
    from Cons.IH[OF this] show ?thesis using MeshGraphMsg by simp
  next
    case (FullMeshMsg x)
    have "pose_graph_updates (deliver m s) = Some g"
      using Cons.prems FullMeshMsg by (simp add: fullMeshCallback_def)
    from Cons.IH[OF this] show ?thesis using FullMeshMsg by simp
  qed
qed

lemma pose_acc_from_None:
  "pose_graph_updates s = None \<Longrightarrow>
   pose_graph_updates (fold deliver msgs s) =
     (if pose_graphs_of msgs = [] then None
      else Some \<lparr>pg_header = pg_header (last (pose_graphs_of msgs)),
                 pg_nodes = concat (map pg_nodes (pose_graphs_of msgs)),
                 pg_edges = concat (map pg_edges (pose_graphs_of msgs))\<rparr>)"
proof (induction msgs arbitrary: s)
  case Nil
  then show ?case by simp
next
  case (Cons m msgs)
  show ?case
  proof (cases m)
    case (PoseGraphMsg x)
    have "pose_graph_updates (deliver m s) = Some x"
      using Cons.prems PoseGraphMsg by (simp add: poseGraphCallback_def)
    from pose_acc_from_Some[OF this, of msgs] show ?thesis
      using PoseGraphMsg by simp
  next
    case (MeshGraphMsg x)
    have "pose_graph_updates (deliver m s) = None"
      using Cons.prems MeshGraphMsg by (simp add: deformationGraphCallback_def)
    from Cons.IH[OF this] show ?thesis using MeshGraphMsg by simp
  next
    case (FullMeshMsg x)
    have "pose_graph_updates (deliver m s) = None"
      using Cons.prems FullMeshMsg by (simp add: fullMeshCallback_def)
    from Cons.IH[OF this] show ?thesis using FullMeshMsg by simp
  qed
qed

lemma mesh_acc_from_Some:
  "deformation_graph_updates s = Some g \<Longrightarrow>
   deformation_graph_updates (fold deliver msgs s) =
     Some \<lparr>pg_header = pg_header (last (g # mesh_graphs_of msgs)),
           pg_nodes = pg_nodes g @ concat (map pg_nodes (mesh_graphs_of msgs)),
           pg_edges = pg_edges g @ concat (map pg_edges (mesh_graphs_of msgs))\<rparr>"
proof (induction msgs arbitrary: s g)
  case Nil
  then show ?case by simp
next
  case (Cons m msgs)
  show ?case
  proof (cases m)
    case (MeshGraphMsg x)
    have "deformation_graph_updates (deliver m s) = Some (mergePoseGraphs x g)"
      using Cons.prems MeshGraphMsg by (simp add: deformationGraphCallback_def)
    from Cons.IH[OF this] show ?thesis
      using MeshGraphMsg by (simp add: mergePoseGraphs_def)
  next
    case (PoseGraphMsg x)
    have "deformation_graph_updates (deliver m s) = Some g"
      using Cons.prems PoseGraphMsg by (simp add: poseGraphCallback_def)
    from Cons.IH[OF this] show ?thesis using PoseGraphMsg by simp
  next
    case (FullMeshMsg x)
    have "deformation_graph_updates (deliver m s) = Some g"
      using Cons.prems FullMeshMsg by (simp add: fullMeshCallback_def)
    from Cons.IH[OF this] show ?thesis using FullMeshMsg by simp
  qed
qed

lemma mesh_acc_from_None:
  "deformation_graph_updates s = None \<Longrightarrow>
   deformation_graph_updates (fold deliver msgs s) =
     (if mesh_graphs_of msgs = [] then None
      else Some \<lparr>pg_header = pg_header (last (mesh_graphs_of msgs)),
                 pg_nodes = concat (map pg_nodes (mesh_graphs_of msgs)),
                 pg_edges = concat (map pg_edges (mesh_graphs_of msgs))\<rparr>)"
proof (induction msgs arbitrary: s)
  case Nil
  then show ?case by simp
next
  case (Cons m msgs)
  show ?case
  proof (cases m)
    case (MeshGraphMsg x)
    have "deformation_graph_updates (deliver m s) = Some x"
      using Cons.prems MeshGraphMsg by (simp add: deformationGraphCallback_def)
    from mesh_acc_from_Some[OF this, of msgs] show ?thesis
      using MeshGraphMsg by simp
  next
    case (PoseGraphMsg x)
    have "deformation_graph_updates (deliver m s) = None"
      using Cons.prems PoseGraphMsg by (simp add: poseGraphCallback_def)
    from Cons.IH[OF this] show ?thesis using PoseGraphMsg by simp
  next
    case (FullMeshMsg x)
    have "deformation_graph_updates (deliver m s) = None"
      using Cons.prems FullMeshMsg by (simp add: fullMeshCallback_def)
    from Cons.IH[OF this] show ?thesis using FullMeshMsg by simp
  qed
qed

lemma deliver_keeps_solver: "deformation_graph (fold deliver msgs s) = deformation_graph s"
proof (induction msgs arbitrary: s)
  case Nil
  show ?case by simp
next
  case (Cons m msgs)
  have "deformation_graph (deliver m s) = deformation_graph s"
    by (cases m) (simp_all add: poseGraphCallback_def deformationGraphCallback_def fullMeshCallback_def)
  with Cons.IH[of "deliver m s"] show ?case by simp
qed

lemma drain_updates_solver:
  "deformation_graph (snd (drain_updates c ind s)) =
     deformation_graph s @
     (case deformation_graph_updates s of None \<Rightarrow> [] | Some u \<Rightarrow> [ProcessIncrementalMeshGraph u]) @
     (case pose_graph_updates s of None \<Rightarrow> [] | Some u \<Rightarrow> [ProcessIncrementalPoseGraph u])"
  by (simp add: drain_updates_def logIncrementalLoopClosures_def split: option.splits)

lemma drain_updates_resets:
  "deformation_graph_updates (snd (drain_updates c ind s)) = None \<and>
   pose_graph_updates (snd (drain_updates c ind s)) = None"
  by (simp add: drain_updates_def logIncrementalLoopClosures_def split: option.splits)

lemma drain_updates_flag:
  "fst (drain_updates c ind s) =
     (if deformation_graph_updates s = None \<and> pose_graph_updates s = None then ind else True)"
  by (simp add: drain_updates_def logIncrementalLoopClosures_def split: option.splits)

text \<open>
  C9. For every sequence of messages coalesced into a pending accumulator since it was
  last empty, the accumulated batch carries the header of the most recently delivered
  message of its kind (the last writer wins), and its node and edge lists are the
  concatenation, in arrival order, of the lists of all those messages. This holds for the
  mesh-factor accumulator and for the pose-graph accumulator alike.
\<close>

theorem accumulator_header_last_writer_wins:
  assumes "deformation_graph_updates s = None" and "pose_graph_updates s = None"
  shows "deformation_graph_updates (fold deliver msgs s) =
           (if mesh_graphs_of msgs = [] then None
            else Some \<lparr>pg_header = pg_header (last (mesh_graphs_of msgs)),
                       pg_nodes = concat (map pg_nodes (mesh_graphs_of msgs)),
                       pg_edges = concat (map pg_edges (mesh_graphs_of msgs))\<rparr>) \<and>
         pose_graph_updates (fold deliver msgs s) =
           (if pose_graphs_of msgs = [] then None
            else Some \<lparr>pg_header = pg_header (last (pose_graphs_of msgs)),
                       pg_nodes = concat (map pg_nodes (pose_graphs_of msgs)),
                       pg_edges = concat (map pg_edges (pose_graphs_of msgs))\<rparr>)"
  using assms by (simp add: mesh_acc_from_None pose_acc_from_None)

theorem accumulator_header_last_writer_wins_witness:
  "deformation_graph_updates backend_0 = None \<and> pose_graph_updates backend_0 = None \<and>
   deformation_graph_updates
     (fold deliver [PoseGraphMsg pose_msg_1, MeshGraphMsg mesh_msg_1, PoseGraphMsg pose_msg_2] backend_0)
     = Some mesh_msg_1 \<and>
   pose_graph_updates
     (fold deliver [PoseGraphMsg pose_msg_1, MeshGraphMsg mesh_msg_1, PoseGraphMsg pose_msg_2] backend_0)
     = Some \<lparr>pg_header = hdr 2,
             pg_nodes = [pg_node 0, pg_node 1, pg_node 2],
             pg_edges = [pg_edge ODOM 0 1, pg_edge ODOM 1 2, pg_edge LOOPCLOSE 2 0]\<rparr>"
proof -
  have a: "deformation_graph_updates backend_0 = None"
    by (simp add: backend_0_def DsgBackend_init_def)
  have b: "pose_graph_updates backend_0 = None"
    by (simp add: backend_0_def DsgBackend_init_def)
  show ?thesis
    using a b accumulator_header_last_writer_wins[OF a b,
        of "[PoseGraphMsg pose_msg_1, MeshGraphMsg mesh_msg_1, PoseGraphMsg pose_msg_2]"]
    by (simp add: pose_msg_1_def pose_msg_2_def mesh_msg_1_def)
qed

text \<open>
  C3. For every sequence of messages delivered after a drain, the next drain hands the
  solver, for each accumulator that received something, one batch whose nodes and edges
  are exactly the concatenation in arrival order of everything delivered; afterwards both
  accumulators are empty, and a further drain without new deliveries hands over nothing,
  so no update is drained twice or in part.
\<close>

theorem drain_takes_all_and_resets:
  assumes "deformation_graph_updates s = None" and "pose_graph_updates s = None"
  shows "deformation_graph (snd (drain_updates c ind (fold deliver msgs s))) =
           deformation_graph s @
           (if mesh_graphs_of msgs = [] then []
            else [ProcessIncrementalMeshGraph
                    \<lparr>pg_header = pg_header (last (mesh_graphs_of msgs)),
                     pg_nodes = concat (map pg_nodes (mesh_graphs_of msgs)),
                     pg_edges = concat (map pg_edges (mesh_graphs_of msgs))\<rparr>]) @
           (if pose_graphs_of msgs = [] then []
            else [ProcessIncrementalPoseGraph
                    \<lparr>pg_header = pg_header (last (pose_graphs_of msgs)),
                     pg_nodes = concat (map pg_nodes (pose_graphs_of msgs)),
                     pg_edges = concat (map pg_edges (pose_graphs_of msgs))\<rparr>]) \<and>
         deformation_graph_updates (snd (drain_updates c ind (fold deliver msgs s))) = None \<and>
         pose_graph_updates (snd (drain_updates c ind (fold deliver msgs s))) = None \<and>
         deformation_graph (snd (drain_updates c ind' (snd (drain_updates c ind (fold deliver msgs s))))) =
           deformation_graph (snd (drain_updates c ind (fold deliver msgs s)))"
  using assms
  by (simp add: drain_updates_solver drain_updates_resets deliver_keeps_solver
        mesh_acc_from_None pose_acc_from_None)

theorem drain_takes_all_and_resets_witness:
  "deformation_graph
     (snd (drain_updates idle_externals False
        (fold deliver [PoseGraphMsg pose_msg_1, MeshGraphMsg mesh_msg_1, PoseGraphMsg pose_msg_2] backend_0))) =
     [ProcessIncrementalMeshGraph mesh_msg_1,
      ProcessIncrementalPoseGraph
        \<lparr>pg_header = hdr 2,
         pg_nodes = [pg_node 0, pg_node 1, pg_node 2],
         pg_edges = [pg_edge ODOM 0 1, pg_edge ODOM 1 2, pg_edge LOOPCLOSE 2 0]\<rparr>]"
proof -
  have a: "deformation_graph_updates backend_0 = None"
    by (simp add: backend_0_def DsgBackend_init_def)
  have b: "pose_graph_updates backend_0 = None"
    by (simp add: backend_0_def DsgBackend_init_def)
  have d: "deformation_graph backend_0 = []"
    by (simp add: backend_0_def DsgBackend_init_def)
  show ?thesis
    using d drain_takes_all_and_resets[OF a b,
        where c = idle_externals and ind = False and ind' = False and
          msgs = "[PoseGraphMsg pose_msg_1, MeshGraphMsg mesh_msg_1, PoseGraphMsg pose_msg_2]"]
    by (simp add: pose_msg_1_def pose_msg_2_def mesh_msg_1_def)
qed

section \<open>Loop closures are counted and added\<close>




lemma lcd_loop_counts:
  "lcd_loop q added s = Inr (b, s') \<Longrightarrow>
   num_loop_closures s' = num_loop_closures s + of_nat (length q) \<and>
   lcd_queue (shared_dsg s') = (if q = [] then lcd_queue (shared_dsg s) else []) \<and>
   deformation_graph s' = deformation_graph s @ map (lcd_between (graph (shared_dsg s))) q \<and>
   list_all (lcd_resolvable (graph (shared_dsg s))) q"
proof (induction q arbitrary: s added)
  case Nil
  then show ?case by simp
next
  case (Cons r q)
  from Cons.prems obtain fk tk where
    fk: "getDynamicNode (graph (shared_dsg s)) (from_node r) = Some fk" and
    tk: "getDynamicNode (graph (shared_dsg s)) (to_node r) = Some tk"
    by (auto simp: Let_def split: option.splits)
  let ?s2 = "s\<lparr>shared_dsg := (shared_dsg s)\<lparr>lcd_queue := q\<rparr>,
               deformation_graph := deformation_graph s @ [AddNewBetween fk tk (to_T_from r)],
               loop_closures := loop_closures s @
                 [\<lparr>lc_from = from_node r, lc_to = to_node r,
                   lc_pose = to_T_from r, lc_internal = True\<rparr>],
               num_loop_closures := num_loop_closures s + 1,
               have_loopclosures := True\<rparr>"
  have "lcd_loop q True ?s2 = Inr (b, s')"
    using Cons.prems fk tk by (simp add: Let_def)
  from Cons.IH[OF this] show ?case
    using fk tk by (simp add: lcd_between_def lcd_resolvable_def add.assoc add.commute)
qed







lemma record_status_frame:
  "num_loop_closures (record_status c n s) = num_loop_closures s \<and>
   shared_dsg (record_status c n s) = shared_dsg s \<and>
   deformation_graph (record_status c n s) = deformation_graph s"
  by (simp add: record_status_def Let_def)

lemma updateRoomsNodes_frame:
  "updateRoomsNodes c s = Inr s' \<Longrightarrow>
   num_loop_closures s' = num_loop_closures s \<and> shared_dsg s' = shared_dsg s \<and>
   deformation_graph s' = deformation_graph s"
  by (auto simp: updateRoomsNodes_def storeUnlabeledPlaces_def
        split: if_splits sum.splits option.splits)

lemma updateBuildingNode_frame:
  "updateBuildingNode c s = Inr s' \<Longrightarrow>
   num_loop_closures s' = num_loop_closures s \<and> shared_dsg s' = shared_dsg s \<and>
   deformation_graph s' = deformation_graph s"
  by (auto simp: updateBuildingNode_def Let_def split: if_splits option.splits)

lemma drain_updates_frame:
  "num_loop_closures (snd (drain_updates c ind s)) =
     num_loop_closures s + of_nat (drained_inherited c s) \<and>
   shared_dsg (snd (drain_updates c ind s)) = shared_dsg s"
  by (simp add: drain_updates_def logIncrementalLoopClosures_def drained_inherited_def
        add.assoc split: option.splits)

lemma critical_section_loop_closures:
  assumes "pgmo_critical_section c ind s = Inr (hgu, s1)"
  shows "num_loop_closures s1 =
           num_loop_closures s +
           of_nat (drained_inherited c s + length (lcd_queue (shared_dsg s))) \<and>
         lcd_queue (shared_dsg s1) = [] \<and>
         deformation_graph s1 =
           deformation_graph (snd (drain_updates c ind s)) @
           map (lcd_between (graph (shared_dsg s))) (lcd_queue (shared_dsg s))"
proof -
  obtain f d where d: "drain_updates c ind s = (f, d)" by (cases "drain_updates c ind s")
  from assms d obtain added where
    l: "lcd_loop (lcd_queue (shared_dsg d)) False d = Inr (added, s1)"
    by (auto simp: pgmo_critical_section_def addInternalLCDToDeformationGraph_def
          split: sum.splits)
  have fr: "num_loop_closures d = num_loop_closures s + of_nat (drained_inherited c s)"
    "shared_dsg d = shared_dsg s"
    using drain_updates_frame[of c ind s] d by simp_all
  from lcd_loop_counts[OF l] show ?thesis
    using fr d by (simp add: add.assoc split: if_splits)
qed

lemma iteration_phases:
  assumes "runPgmo_iteration c ind s = Inr s'"
  shows "\<exists>hgu s1 s2 s3.
           pgmo_critical_section c ind (s\<lparr>status := status_reset\<rparr>) = Inr (hgu, s1) \<and>
           private_dsg_critical_section c hgu (record_status c (num_loop_closures s) s1) = Inr s2 \<and>
           updateRoomsNodes c (if hgu \<and> pgmo_log s2 then logStatus s2 else s2) = Inr s3 \<and>
           updateBuildingNode c s3 = Inr s'"
  using assms
  by (auto simp: runPgmo_iteration_def Let_def split: sum.splits prod.splits)

lemma drained_inherited_status:
  "drained_inherited c (s\<lparr>status := st\<rparr>) = drained_inherited c s"
  by (simp add: drained_inherited_def)










section \<open>When the solver is touched\<close>

lemma private_section_idle:
  assumes "private_dsg_critical_section c hgu s = Inr s'"
    and "\<not> (hgu \<and> optimize_on_lc s \<and> have_loopclosures s)"
    and "\<not> call_update_periodically s"
  shows "deformation_graph s' = deformation_graph s"
proof -
  have f: "optimize_on_lc (updatePrivateDsg c s) = optimize_on_lc s"
          "have_loopclosures (updatePrivateDsg c s) = have_loopclosures s"
          "call_update_periodically (updatePrivateDsg c s) = call_update_periodically s"
          "deformation_graph (updatePrivateDsg c s) = deformation_graph s"
    by (simp_all add: updatePrivateDsg_def)
  show ?thesis
    using assms f
    by (auto simp: private_dsg_critical_section_def Let_def split: if_splits)
qed

lemma record_status_flags:
  "optimize_on_lc (record_status c n s) = optimize_on_lc s \<and>
   call_update_periodically (record_status c n s) = call_update_periodically s \<and>
   have_loopclosures (record_status c n s) = (have_loopclosures s \<or> 0 < num_loop_closures s)"
  by (simp add: record_status_def Let_def)

lemma critical_section_idle:
  assumes "pgmo_critical_section c ind s = Inr (hgu, s1)"
    and "deformation_graph_updates s = None" and "pose_graph_updates s = None"
    and "lcd_queue (shared_dsg s) = []"
  shows "hgu = ind \<and> s1 = s"
  using assms
  by (simp add: pgmo_critical_section_def drain_updates_def addInternalLCDToDeformationGraph_def)

text \<open>
  C2 (as amended). In an iteration that completes, with no mesh-factor and no pose-graph
  update pending, an empty loop-closure queue, periodic updates disabled, and the
  optimization branch not entered (the flag \<open>have_graph_updates\<close>, which such an iteration
  never assigns, reads false, or optimization on loop closure is disabled, or no loop
  closure has been accepted so far), no call is made on the solver: neither \<open>optimize()\<close>
  nor \<open>deformMesh()\<close> runs and the solver state is unchanged.
\<close>

theorem idle_cycle_leaves_solver:
  assumes "runPgmo_iteration c ind s = Inr s'"
    and "deformation_graph_updates s = None" and "pose_graph_updates s = None"
    and "lcd_queue (shared_dsg s) = []"
    and "\<not> call_update_periodically s"
    and "\<not> (ind \<and> optimize_on_lc s \<and> (have_loopclosures s \<or> 0 < num_loop_closures s))"
  shows "deformation_graph s' = deformation_graph s"
proof -
  from iteration_phases[OF assms(1)] obtain hgu s1 s2 s3 where
    p1: "pgmo_critical_section c ind (s\<lparr>status := status_reset\<rparr>) = Inr (hgu, s1)" and
    p2: "private_dsg_critical_section c hgu (record_status c (num_loop_closures s) s1) = Inr s2" and
    p3: "updateRoomsNodes c (if hgu \<and> pgmo_log s2 then logStatus s2 else s2) = Inr s3" and
    p4: "updateBuildingNode c s3 = Inr s'"
    by blast
  let ?s0 = "s\<lparr>status := status_reset\<rparr>"
  have e: "hgu = ind" "s1 = ?s0"
    using critical_section_idle[OF p1] assms(2-4) by simp_all
  let ?r = "record_status c (num_loop_closures s) s1"
  have fl: "\<not> (hgu \<and> optimize_on_lc ?r \<and> have_loopclosures ?r)"
           "\<not> call_update_periodically ?r"
    using e assms(5,6) by (auto simp: record_status_flags)
  have "deformation_graph s2 = deformation_graph ?r"
    using private_section_idle[OF p2 fl] .
  also have "\<dots> = deformation_graph s"
    using e by (simp add: record_status_frame)
  finally have d2: "deformation_graph s2 = deformation_graph s" .
  have "deformation_graph s3 = deformation_graph s2"
    using updateRoomsNodes_frame[OF p3] by (simp add: logStatus_def)
  moreover have "deformation_graph s' = deformation_graph s3"
    using updateBuildingNode_frame[OF p4] by simp
  ultimately show ?thesis using d2 by simp
qed

theorem idle_cycle_leaves_solver_witness:
  "runPgmo_iteration idle_externals True quiet_backend =
     Inr (projr (runPgmo_iteration idle_externals True quiet_backend)) \<and>
   deformation_graph_updates quiet_backend = None \<and> pose_graph_updates quiet_backend = None \<and>
   lcd_queue (shared_dsg quiet_backend) = [] \<and> \<not> call_update_periodically quiet_backend \<and>
   \<not> (True \<and> optimize_on_lc quiet_backend \<and>
        (have_loopclosures quiet_backend \<or> 0 < num_loop_closures quiet_backend)) \<and>
   deformation_graph (projr (runPgmo_iteration idle_externals True quiet_backend)) =
     deformation_graph quiet_backend"
proof -
  have h1: "runPgmo_iteration idle_externals True quiet_backend =
     Inr (projr (runPgmo_iteration idle_externals True quiet_backend))"
    by (simp add: quiet_backend_def example_defs backend_defs graph_defs Let_def)
  have h2: "deformation_graph_updates quiet_backend = None"
    and h3: "pose_graph_updates quiet_backend = None"
    and h4: "lcd_queue (shared_dsg quiet_backend) = []"
    and h5: "\<not> call_update_periodically quiet_backend"
    and h6: "\<not> (True \<and> optimize_on_lc quiet_backend \<and>
        (have_loopclosures quiet_backend \<or> 0 < num_loop_closures quiet_backend))"
    by (simp_all add: quiet_backend_def example_defs)
  from idle_cycle_leaves_solver[OF h1 h2 h3 h4 h5 h6] h1 h2 h3 h4 h5 h6
  show ?thesis by blast
qed

text \<open>
  C2 as stated fails: with no update pending and periodic updates disabled, a queued
  loop-closure candidate is still drained and added to the solver as a between-factor.
\<close>

theorem idle_cycle_with_candidate_counterexample:
  "deformation_graph_updates quiet_lc_backend = None \<and>
   pose_graph_updates quiet_lc_backend = None \<and>
   \<not> call_update_periodically quiet_lc_backend \<and>
   deformation_graph quiet_lc_backend = [] \<and>
   map_sum id deformation_graph (runPgmo_iteration idle_externals False quiet_lc_backend) =
     Inr [AddNewBetween 103 101 (Pose3 Rot3_identity (0, 0, 0))]"
  by (simp add: quiet_lc_backend_def lc_found_backend_def example_defs backend_defs
        graph_defs Let_def)

lemma between_calls_no_optimize:
  "between_calls L es = Inr calls \<Longrightarrow> count_list calls Optimize = 0"
proof (induction es arbitrary: calls)
  case Nil
  then show ?case by simp
next
  case (Cons e es)
  then show ?case
    by (auto split: option.splits sum.splits)
qed

lemma place_calls_no_optimize:
  "count_list (concat (map (place_calls m prefix) ns)) Optimize = 0"
  by (induction ns) (simp_all add: place_calls_def)

lemma addPlaces_optimize_count:
  "addPlacesToDeformationGraph c s = Inr s' \<Longrightarrow>
   count_list (deformation_graph s') Optimize = count_list (deformation_graph s) Optimize \<and>
   have_new_mesh s' = have_new_mesh s \<and> latest_mesh s' = latest_mesh s"
  by (auto simp: addPlacesToDeformationGraph_def Let_def place_calls_no_optimize
        between_calls_no_optimize split: if_splits sum.splits)

lemma updateDsgMesh_optimize_count:
  "count_list (deformation_graph (updateDsgMesh c s)) Optimize =
     count_list (deformation_graph s) Optimize"
  by (simp add: updateDsgMesh_def Let_def split: option.splits)

lemma optimize_optimize_count:
  assumes "optimize c s = Inr s'"
  shows "count_list (deformation_graph s') Optimize =
           Suc (count_list (deformation_graph s) Optimize)"
proof -
  from assms obtain s1 where
    s1: "(if add_places_to_deformation_graph s then addPlacesToDeformationGraph c s
          else Inr s) = Inr s1"
    and s': "deformation_graph s' =
               deformation_graph
                 (updateDsgMesh c (s1\<lparr>deformation_graph := deformation_graph s1 @ [Optimize]\<rparr>))"
    by (auto simp: optimize_def Let_def callUpdateFunctions_def split: sum.splits)
  have "count_list (deformation_graph s1) Optimize = count_list (deformation_graph s) Optimize"
    using s1 addPlaces_optimize_count[of c s s1] by (auto split: if_splits)
  then show ?thesis
    using s' by (simp add: updateDsgMesh_optimize_count)
qed

lemma private_section_optimize_count:
  assumes "private_dsg_critical_section c hgu s = Inr s'"
  shows "count_list (deformation_graph s') Optimize =
           count_list (deformation_graph s) Optimize +
           (if hgu \<and> optimize_on_lc s \<and> have_loopclosures s then 1 else 0)"
proof -
  let ?s1 = "updatePrivateDsg c s"
  have f: "optimize_on_lc ?s1 = optimize_on_lc s" "have_loopclosures ?s1 = have_loopclosures s"
          "deformation_graph ?s1 = deformation_graph s"
    by (simp_all add: updatePrivateDsg_def)
  from assms obtain s2 where
    br: "(if hgu \<and> optimize_on_lc ?s1 \<and> have_loopclosures ?s1 then optimize c ?s1
          else if call_update_periodically ?s1
          then Inr (callUpdateFunctions c [] [] (updateDsgMesh c ?s1)) else Inr ?s1) = Inr s2"
    and s': "deformation_graph s' = deformation_graph s2"
    by (auto simp: private_dsg_critical_section_def Let_def split: sum.splits)
  show ?thesis
  proof (cases "hgu \<and> optimize_on_lc s \<and> have_loopclosures s")
    case True
    then have "optimize c ?s1 = Inr s2" using br f by simp
    from optimize_optimize_count[OF this] show ?thesis using True s' f by simp
  next
    case False
    then have "deformation_graph s2 = deformation_graph ?s1 \<or>
               deformation_graph s2 = deformation_graph (updateDsgMesh c ?s1)"
      using br f by (auto simp: callUpdateFunctions_def split: if_splits)
    then show ?thesis
      using False s' f by (auto simp: updateDsgMesh_optimize_count)
  qed
qed

lemma critical_section_flags:
  assumes "pgmo_critical_section c ind s = Inr (hgu, s1)"
  shows "hgu = (deformation_graph_updates s \<noteq> None \<or> pose_graph_updates s \<noteq> None \<or> ind) \<and>
         optimize_on_lc s1 = optimize_on_lc s \<and>
         have_loopclosures s1 = (have_loopclosures s \<or> lcd_queue (shared_dsg s) \<noteq> []) \<and>
         count_list (deformation_graph s1) Optimize = count_list (deformation_graph s) Optimize"
proof -
  obtain f d where d: "drain_updates c ind s = (f, d)" by (cases "drain_updates c ind s")
  from assms d obtain added where
    l: "lcd_loop (lcd_queue (shared_dsg d)) False d = Inr (added, s1)" and hf: "hgu = f"
    by (auto simp: pgmo_critical_section_def addInternalLCDToDeformationGraph_def
          split: sum.splits)
  have fl: "f = (deformation_graph_updates s \<noteq> None \<or> pose_graph_updates s \<noteq> None \<or> ind)"
    using drain_updates_flag[of c ind s] d by auto
  have dd: "optimize_on_lc d = optimize_on_lc s" "have_loopclosures d = have_loopclosures s"
       "shared_dsg d = shared_dsg s"
       "count_list (deformation_graph d) Optimize = count_list (deformation_graph s) Optimize"
    using d
    by (auto simp: drain_updates_def logIncrementalLoopClosures_def split: option.splits)
  have loop: "\<And>q added s s1 b. lcd_loop q added s = Inr (b, s1) \<Longrightarrow>
       optimize_on_lc s1 = optimize_on_lc s \<and>
       have_loopclosures s1 = (have_loopclosures s \<or> q \<noteq> []) \<and>
       count_list (deformation_graph s1) Optimize = count_list (deformation_graph s) Optimize"
  proof -
    fix q added s s1 b
    show "lcd_loop q added s = Inr (b, s1) \<Longrightarrow>
       optimize_on_lc s1 = optimize_on_lc s \<and>
       have_loopclosures s1 = (have_loopclosures s \<or> q \<noteq> []) \<and>
       count_list (deformation_graph s1) Optimize = count_list (deformation_graph s) Optimize"
    proof (induction q arbitrary: added s)
      case Nil
      then show ?case by simp
    next
      case (Cons r q)
      from Cons.prems obtain fk tk where
        fk: "getDynamicNode (graph (shared_dsg s)) (from_node r) = Some fk" and
        tk: "getDynamicNode (graph (shared_dsg s)) (to_node r) = Some tk"
        by (auto simp: Let_def split: option.splits)
      let ?s2 = "s\<lparr>shared_dsg := (shared_dsg s)\<lparr>lcd_queue := q\<rparr>,
               deformation_graph := deformation_graph s @ [AddNewBetween fk tk (to_T_from r)],
               loop_closures := loop_closures s @
                 [\<lparr>lc_from = from_node r, lc_to = to_node r,
                   lc_pose = to_T_from r, lc_internal = True\<rparr>],
               num_loop_closures := num_loop_closures s + 1,
               have_loopclosures := True\<rparr>"
      have "lcd_loop q True ?s2 = Inr (b, s1)"
        using Cons.prems fk tk by (simp add: Let_def)
      from Cons.IH[OF this] show ?case by simp
    qed
  qed
  from loop[OF l] show ?thesis using dd fl hf by simp
qed

text \<open>
  What the code does: an iteration that completes calls the solver's \<open>optimize()\<close> once or
  not at all, and it does so exactly when the flag is set (an update was pending, or the
  unassigned flag reads true), optimization on loop closure is enabled, and a loop
  closure has been accepted by the end of the drain (the flag was set before, or a
  candidate was queued, or the counter is positive after the drain).
\<close>

lemma iteration_optimize_count:
  assumes "runPgmo_iteration c ind s = Inr s'"
  shows "count_list (deformation_graph s') Optimize =
           count_list (deformation_graph s) Optimize +
           (if (deformation_graph_updates s \<noteq> None \<or> pose_graph_updates s \<noteq> None \<or> ind) \<and>
               optimize_on_lc s \<and>
               (have_loopclosures s \<or> lcd_queue (shared_dsg s) \<noteq> [] \<or>
                0 < num_loop_closures s +
                    of_nat (drained_inherited c s + length (lcd_queue (shared_dsg s))))
            then 1 else 0)"
proof -
  from iteration_phases[OF assms] obtain hgu s1 s2 s3 where
    p1: "pgmo_critical_section c ind (s\<lparr>status := status_reset\<rparr>) = Inr (hgu, s1)" and
    p2: "private_dsg_critical_section c hgu (record_status c (num_loop_closures s) s1) = Inr s2" and
    p3: "updateRoomsNodes c (if hgu \<and> pgmo_log s2 then logStatus s2 else s2) = Inr s3" and
    p4: "updateBuildingNode c s3 = Inr s'"
    by blast
  let ?r = "record_status c (num_loop_closures s) s1"
  from critical_section_flags[OF p1] have
    c1: "hgu = (deformation_graph_updates s \<noteq> None \<or> pose_graph_updates s \<noteq> None \<or> ind)"
        "optimize_on_lc s1 = optimize_on_lc s"
        "have_loopclosures s1 = (have_loopclosures s \<or> lcd_queue (shared_dsg s) \<noteq> [])"
        "count_list (deformation_graph s1) Optimize = count_list (deformation_graph s) Optimize"
    by simp_all
  from critical_section_loop_closures[OF p1] have
    n1: "num_loop_closures s1 =
           num_loop_closures s +
           of_nat (drained_inherited c s + length (lcd_queue (shared_dsg s)))"
    by (simp add: drained_inherited_status)
  have r: "optimize_on_lc ?r = optimize_on_lc s"
          "have_loopclosures ?r =
             (have_loopclosures s \<or> lcd_queue (shared_dsg s) \<noteq> [] \<or>
              0 < num_loop_closures s +
                  of_nat (drained_inherited c s + length (lcd_queue (shared_dsg s))))"
          "deformation_graph ?r = deformation_graph s1"
    using c1 n1 by (auto simp: record_status_flags record_status_frame)
  have "deformation_graph s3 = deformation_graph s2"
    using updateRoomsNodes_frame[OF p3] by (simp add: logStatus_def)
  moreover have "deformation_graph s' = deformation_graph s3"
    using updateBuildingNode_frame[OF p4] by simp
  ultimately show ?thesis
    using private_section_optimize_count[OF p2] r c1 by simp
qed

text \<open>
  C1. The claim is that the full optimize step runs exactly when factors were added in
  the iteration (between-factors of drained loop-closure candidates included),
  optimization on loop closure is enabled and a loop closure has been accepted. The code
  evaluated on a backend whose only pending input is one queued candidate: the first
  iteration (flag reading false) adds the between-factor, has optimization enabled and a
  loop closure accepted, and does not optimize; a second iteration with nothing pending
  at all (flag reading true) adds no factor and optimizes. Lemma
  \<open>iteration_optimize_count\<close> above gives the trigger that the code implements.
\<close>

theorem optimize_trigger_ignores_loop_closures:
  "deformation_graph_updates lc_found_backend = None \<and>
   pose_graph_updates lc_found_backend = None \<and>
   lcd_queue (shared_dsg lc_found_backend) = [candidate 3 1] \<and>
   optimize_on_lc lc_found_backend \<and>
   deformation_graph lc_found_backend = [] \<and>
   map_sum id deformation_graph (run idle_externals [Iteration False] lc_found_backend) =
     Inr [AddNewBetween 103 101 (Pose3 Rot3_identity (0, 0, 0))] \<and>
   map_sum id have_loopclosures (run idle_externals [Iteration False] lc_found_backend) =
     Inr True \<and>
   map_sum id (lcd_queue \<circ> shared_dsg)
     (run idle_externals [Iteration False] lc_found_backend) = Inr [] \<and>
   map_sum id deformation_graph_updates
     (run idle_externals [Iteration False] lc_found_backend) = Inr None \<and>
   map_sum id pose_graph_updates
     (run idle_externals [Iteration False] lc_found_backend) = Inr None \<and>
   map_sum id deformation_graph
     (run idle_externals [Iteration False, Iteration True] lc_found_backend) =
     Inr [AddNewBetween 103 101 (Pose3 Rot3_identity (0, 0, 0)), Optimize]"
  by (simp add: lc_found_backend_def example_defs backend_defs graph_defs Let_def)

section \<open>Places in the solver\<close>

lemma between_calls_returns:
  "\<forall>e \<in> set es. layer_hasNode L (fst e) \<and> layer_hasNode L (snd e) \<Longrightarrow>
   between_calls L es = Inr (map (temp_between_of L) es)"
proof (induction es)
  case Nil
  show ?case by simp
next
  case (Cons e es)
  then have "between_calls L es = Inr (map (temp_between_of L) es)" by simp
  moreover obtain a b where "map_of (layer_nodes L) (fst e) = Some a"
    "map_of (layer_nodes L) (snd e) = Some b"
    using Cons.prems by (auto simp: layer_hasNode_def)
  ultimately show ?case
    by (simp add: layer_getPosition_def temp_between_of_def)
qed

lemma filter_temp_node_places:
  "filter is_temp_node (concat (map (place_calls m prefix) ns)) =
     map (\<lambda>p. AddNewTempNode (fst p) (Pose3 Rot3_identity (node_position (snd p))) False) ns"
  by (induction ns) (simp_all add: place_calls_def)

lemma filter_temp_valence_places:
  "filter is_temp_valence (concat (map (place_calls m prefix) ns)) =
     map (\<lambda>p. AddTempNodeValence (fst p) (pcl_mesh_connections (snd p)) prefix)
       (filter (\<lambda>p. fst p \<in> mst_leaves m \<and> pcl_mesh_connections (snd p) \<noteq> []) ns)"
  by (induction ns) (simp_all add: place_calls_def)

lemma filter_temp_between_places:
  "filter is_temp_between (concat (map (place_calls m prefix) ns)) = []"
  by (induction ns) (simp_all add: place_calls_def)

lemma filter_between_list:
  "filter is_temp_node (map (temp_between_of L) es) = [] \<and>
   filter is_temp_valence (map (temp_between_of L) es) = [] \<and>
   filter is_temp_between (map (temp_between_of L) es) = map (temp_between_of L) es"
  by (induction es) (simp_all add: temp_between_of_def)

lemma place_calls_kinds:
  "call \<in> set (concat (map (place_calls m prefix) ns)) \<Longrightarrow>
   is_temp_node call \<or> is_temp_valence call"
  by (induction ns) (auto simp: place_calls_def split: if_splits)

text \<open>
  C6. Whenever places are added to the deformation solver, that is, the places snapshot
  holds at least one node (and the spanning edges join nodes of the snapshot), the calls
  appended to the solver are: first \<open>clearTemporaryStructures\<close>; then, among the rest,
  exactly one temporary node per place node of the snapshot, in the snapshot's order;
  a temporary valence only for the places that are leaves of the spanning tree and have
  mesh connections, one for each of them; one temporary between-factor per spanning
  edge; and nothing else.
\<close>

theorem places_added_as_temporaries:
  assumes "layer_nodes (shared_places_copy s) \<noteq> []"
    and "\<forall>e \<in> set (mst_edges (getMinimumSpanningEdges c (shared_places_copy s))).
           layer_hasNode (shared_places_copy s) (fst e) \<and>
           layer_hasNode (shared_places_copy s) (snd e)"
  shows "\<exists>added.
           addPlacesToDeformationGraph c s =
             Inr (s\<lparr>deformation_graph :=
                      deformation_graph s @ ClearTemporaryStructures # added\<rparr>) \<and>
           filter is_temp_node added =
             map (\<lambda>p. AddNewTempNode (fst p) (Pose3 Rot3_identity (node_position (snd p))) False)
               (layer_nodes (shared_places_copy s)) \<and>
           filter is_temp_valence added =
             map (\<lambda>p. AddTempNodeValence (fst p) (pcl_mesh_connections (snd p))
                        (robot_vertex_prefix s))
               (filter (\<lambda>p. fst p \<in> mst_leaves (getMinimumSpanningEdges c (shared_places_copy s)) \<and>
                             pcl_mesh_connections (snd p) \<noteq> [])
                  (layer_nodes (shared_places_copy s))) \<and>
           filter is_temp_between added =
             map (temp_between_of (shared_places_copy s))
               (mst_edges (getMinimumSpanningEdges c (shared_places_copy s))) \<and>
           (\<forall>call \<in> set added. is_temp_node call \<or> is_temp_valence call \<or> is_temp_between call)"
proof -
  let ?L = "shared_places_copy s"
  let ?m = "getMinimumSpanningEdges c ?L"
  let ?nodes = "concat (map (place_calls ?m (robot_vertex_prefix s)) (layer_nodes ?L))"
  let ?betw = "map (temp_between_of ?L) (mst_edges ?m)"
  have b: "between_calls ?L (mst_edges ?m) = Inr ?betw"
    using between_calls_returns[OF assms(2)] .
  have r: "addPlacesToDeformationGraph c s =
             Inr (s\<lparr>deformation_graph :=
                      deformation_graph s @ ClearTemporaryStructures # (?nodes @ ?betw)\<rparr>)"
    using assms(1) b by (simp add: addPlacesToDeformationGraph_def Let_def)
  have k: "\<forall>call \<in> set (?nodes @ ?betw).
             is_temp_node call \<or> is_temp_valence call \<or> is_temp_between call"
    using place_calls_kinds[of _ ?m "robot_vertex_prefix s" "layer_nodes ?L"]
    by (auto simp: temp_between_of_def)
  show ?thesis
    apply (rule exI[of _ "?nodes @ ?betw"])
    using r k
    by (simp add: filter_temp_node_places filter_temp_valence_places
          filter_temp_between_places filter_between_list)
qed

lemma addPlaces_empty_snapshot:
  "layer_nodes (shared_places_copy s) = [] \<Longrightarrow> addPlacesToDeformationGraph c s = Inr s"
  by (simp add: addPlacesToDeformationGraph_def)

theorem places_added_as_temporaries_witness:
  "layer_nodes (shared_places_copy places_backend) \<noteq> [] \<and>
   list_all (\<lambda>e. layer_hasNode (shared_places_copy places_backend) (fst e) \<and>
                  layer_hasNode (shared_places_copy places_backend) (snd e))
     (mst_edges (getMinimumSpanningEdges chain_externals (shared_places_copy places_backend))) \<and>
   map_sum id deformation_graph (addPlacesToDeformationGraph chain_externals places_backend) =
     Inr [AddNewTempNode 99 (Pose3 Rot3_identity (1, 1, 1)) False,
          ClearTemporaryStructures,
          AddNewTempNode 11 (Pose3 Rot3_identity (0, 0, 0)) False,
          AddTempNodeValence 11 [4, 5] (CHR ''s''),
          AddNewTempNode 12 (Pose3 Rot3_identity (2, 0, 0)) False,
          AddNewTempNode 13 (Pose3 Rot3_identity (2, 3, 0)) False,
          AddNewTempBetween 11 12 (Pose3 Rot3_identity (2, 0, 0)),
          AddNewTempBetween 12 13 (Pose3 Rot3_identity (0, 3, 0))]"
proof -
  have h1: "layer_nodes (shared_places_copy places_backend) \<noteq> []"
    by (simp add: places_backend_def three_places_def)
  have h2: "\<forall>e \<in> set (mst_edges (getMinimumSpanningEdges chain_externals
                  (shared_places_copy places_backend))).
      layer_hasNode (shared_places_copy places_backend) (fst e) \<and>
      layer_hasNode (shared_places_copy places_backend) (snd e)"
    by (simp add: places_backend_def three_places_def chain_externals_def idle_externals_def
          layer_hasNode_def)
  from places_added_as_temporaries[OF h1 h2] obtain added where
    "addPlacesToDeformationGraph chain_externals places_backend =
       Inr (places_backend\<lparr>deformation_graph :=
              deformation_graph places_backend @ ClearTemporaryStructures # added\<rparr>)"
    by blast
  moreover have "map_sum id deformation_graph
      (addPlacesToDeformationGraph chain_externals places_backend) =
     Inr [AddNewTempNode 99 (Pose3 Rot3_identity (1, 1, 1)) False,
          ClearTemporaryStructures,
          AddNewTempNode 11 (Pose3 Rot3_identity (0, 0, 0)) False,
          AddTempNodeValence 11 [4, 5] (CHR ''s''),
          AddNewTempNode 12 (Pose3 Rot3_identity (2, 0, 0)) False,
          AddNewTempNode 13 (Pose3 Rot3_identity (2, 3, 0)) False,
          AddNewTempBetween 11 12 (Pose3 Rot3_identity (2, 0, 0)),
          AddNewTempBetween 12 13 (Pose3 Rot3_identity (0, 3, 0))]"
    by (simp add: places_backend_def three_places_def chain_externals_def idle_externals_def
          backend_0_def DsgBackend_init_def addPlacesToDeformationGraph_def place_calls_def
          layer_getPosition_def place_a_def place_b_def place_c_def between_unrotated_def
          Let_def)
  ultimately show ?thesis using h1 h2 by (simp add: list_all_iff)
qed

section \<open>An empty mesh\<close>

text \<open>
  C8 (as amended). When the latest incoming mesh has no vertex, the mesh update drops
  it silently: at most the new-mesh flag is cleared, \<open>deformMesh\<close> is not invoked, the
  mesh of the private graph is unchanged, no counter of the backend changes, and the call
  returns to its caller, so the cycle continues.
\<close>

theorem empty_mesh_is_dropped:
  assumes "latest_mesh s = Some msg" and "msg_vertices msg = []"
  shows "updateDsgMesh c s = (if have_new_mesh s then s\<lparr>have_new_mesh := False\<rparr> else s) \<and>
         deformation_graph (updateDsgMesh c s) = deformation_graph s \<and>
         dsg_mesh (graph (private_dsg (updateDsgMesh c s))) = dsg_mesh (graph (private_dsg s)) \<and>
         status (updateDsgMesh c s) = status s \<and>
         num_loop_closures (updateDsgMesh c s) = num_loop_closures s"
  using assms by (simp add: updateDsgMesh_def PgmoMeshMsgToPolygonMesh_def Let_def)

theorem empty_mesh_is_dropped_witness:
  "latest_mesh empty_mesh_backend = Some empty_mesh_msg \<and> msg_vertices empty_mesh_msg = [] \<and>
   have_new_mesh empty_mesh_backend \<and>
   updateDsgMesh idle_externals empty_mesh_backend = empty_mesh_backend\<lparr>have_new_mesh := False\<rparr> \<and>
   dsg_mesh (graph (private_dsg (updateDsgMesh idle_externals empty_mesh_backend))) = Some old_mesh"
proof -
  have h1: "latest_mesh empty_mesh_backend = Some empty_mesh_msg"
    by (simp add: empty_mesh_backend_def fullMeshCallback_def)
  have h2: "msg_vertices empty_mesh_msg = []"
    by (simp add: empty_mesh_msg_def)
  have h3: "have_new_mesh empty_mesh_backend"
    by (simp add: empty_mesh_backend_def fullMeshCallback_def)
  have h4: "dsg_mesh (graph (private_dsg empty_mesh_backend)) = Some old_mesh"
    by (simp add: empty_mesh_backend_def fullMeshCallback_def)
  from empty_mesh_is_dropped[OF h1 h2, of idle_externals] h1 h2 h3 h4
  show ?thesis by simp
qed

text \<open>
  C8 as stated fails in its "counts it": dropping an empty mesh changes nothing but the
  new-mesh flag; the status counters, the status rows, the loop-closure counter and the
  time stamp are what they were.
\<close>

theorem empty_mesh_not_counted_counterexample:
  "latest_mesh empty_mesh_backend = Some empty_mesh_msg \<and>
   msg_vertices empty_mesh_msg = [] \<and>
   status (updateDsgMesh idle_externals empty_mesh_backend) = status empty_mesh_backend \<and>
   status_rows (updateDsgMesh idle_externals empty_mesh_backend) = status_rows empty_mesh_backend \<and>
   num_loop_closures (updateDsgMesh idle_externals empty_mesh_backend) =
     num_loop_closures empty_mesh_backend \<and>
   last_timestamp (updateDsgMesh idle_externals empty_mesh_backend) =
     last_timestamp empty_mesh_backend \<and>
   updateDsgMesh idle_externals empty_mesh_backend = empty_mesh_backend\<lparr>have_new_mesh := False\<rparr>"
  by (simp add: empty_mesh_backend_def fullMeshCallback_def empty_mesh_msg_def updateDsgMesh_def
        PgmoMeshMsgToPolygonMesh_def Let_def)

section \<open>The building node\<close>

lemma foldl_vadd:
  "foldl vadd (a, b, c) ps =
     (a + sum_list (map fst ps), b + sum_list (map (\<lambda>p. fst (snd p)) ps),
      c + sum_list (map (\<lambda>p. snd (snd p)) ps))"
proof (induction ps arbitrary: a b c)
  case Nil
  show ?case by simp
next
  case (Cons p ps)
  obtain x y z where p: "p = (x, y, z)" by (cases p) auto
  show ?case using Cons.IH[of "a + x" "b + y" "c + z"] by (simp add: p add.assoc)
qed

lemma rooms_centroid_is_mean:
  "rooms_centroid L = mean_position (map (\<lambda>p. node_position (snd p)) (layer_nodes L))"
  by (simp add: rooms_centroid_def mean_position_def vzero_def foldl_vadd numNodes_def)

lemma insertEdge_building_room:
  assumes "getNode g b = Some a" and "node_layer a = BUILDINGS"
    and "getNode g r = Some n" and "node_layer n = ROOMS"
  shows "insertEdge g b r =
           (if hasParent g r then g else g\<lparr>dsg_parents := dsg_parents g @ [(r, b)]\<rparr>)"
  using assms by (simp add: insertEdge_def)

lemma map_of_snoc:
  "map_of (xs @ [(k, v)]) x =
     (case map_of xs x of Some y \<Rightarrow> Some y | None \<Rightarrow> if x = k then Some v else None)"
  by (simp add: map_add_def split: option.splits)

lemma insertEdge_building_room_parents:
  assumes "getNode g b = Some a" and "node_layer a = BUILDINGS"
    and "getNode g r = Some n" and "node_layer n = ROOMS"
  shows "dsg_nodes (insertEdge g b r) = dsg_nodes g"
    and "dsg_layer_ids (insertEdge g b r) = dsg_layer_ids g"
    and "dsg_mesh (insertEdge g b r) = dsg_mesh g"
    and "getParent g x = Some y \<Longrightarrow> getParent (insertEdge g b r) x = Some y"
    and "x \<noteq> r \<Longrightarrow> getParent (insertEdge g b r) x = getParent g x"
    and "getParent g r = None \<or> getParent g r = Some b \<Longrightarrow>
         getParent (insertEdge g b r) r = Some b"
  using insertEdge_building_room[OF assms]
  by (auto simp: hasParent_def getParent_def map_add_def split: option.splits)

lemma link_rooms_parents:
  assumes "getNode g b = Some a" and "node_layer a = BUILDINGS"
    and "\<forall>p \<in> set rooms. \<exists>n. getNode g (fst p) = Some n \<and> node_layer n = ROOMS"
    and "\<forall>p \<in> set rooms. getParent g (fst p) = None \<or> getParent g (fst p) = Some b"
  shows "dsg_nodes (link_rooms b rooms g) = dsg_nodes g \<and>
         dsg_layer_ids (link_rooms b rooms g) = dsg_layer_ids g \<and>
         dsg_mesh (link_rooms b rooms g) = dsg_mesh g \<and>
         (\<forall>x y. getParent g x = Some y \<longrightarrow> getParent (link_rooms b rooms g) x = Some y) \<and>
         (\<forall>p \<in> set rooms. getParent (link_rooms b rooms g) (fst p) = Some b)"
  using assms
proof (induction rooms arbitrary: g)
  case Nil
  show ?case by (simp add: link_rooms_def)
next
  case (Cons p rooms)
  let ?r = "fst p"
  let ?g1 = "insertEdge g b ?r"
  from Cons.prems(3) obtain n where n: "getNode g ?r = Some n" "node_layer n = ROOMS"
    by auto
  note ie = insertEdge_building_room_parents[OF Cons.prems(1,2) n]
  have nodes1: "dsg_nodes ?g1 = dsg_nodes g" by (rule ie(1))
  have gn: "\<And>i. getNode ?g1 i = getNode g i"
    by (simp add: getNode_def nodes1)
  have pr: "getParent ?g1 ?r = Some b"
    using ie(6) Cons.prems(4) by simp
  have keep: "\<And>x y. getParent g x = Some y \<Longrightarrow> getParent ?g1 x = Some y"
    by (rule ie(4))
  have a1: "getNode ?g1 b = Some a" using Cons.prems(1) gn by simp
  have a3: "\<forall>q \<in> set rooms. \<exists>n. getNode ?g1 (fst q) = Some n \<and> node_layer n = ROOMS"
    using Cons.prems(3) gn by simp
  have a4: "\<forall>q \<in> set rooms. getParent ?g1 (fst q) = None \<or> getParent ?g1 (fst q) = Some b"
  proof
    fix q assume q: "q \<in> set rooms"
    show "getParent ?g1 (fst q) = None \<or> getParent ?g1 (fst q) = Some b"
    proof (cases "fst q = ?r")
      case True
      then show ?thesis using pr by simp
    next
      case False
      then show ?thesis using ie(5)[of "fst q"] Cons.prems(4) q by simp
    qed
  qed
  have step: "link_rooms b (p # rooms) g = link_rooms b rooms ?g1"
    by (simp add: link_rooms_def)
  from Cons.IH[OF a1 Cons.prems(2) a3 a4] have
    ih: "dsg_nodes (link_rooms b rooms ?g1) = dsg_nodes ?g1"
        "dsg_layer_ids (link_rooms b rooms ?g1) = dsg_layer_ids ?g1"
        "dsg_mesh (link_rooms b rooms ?g1) = dsg_mesh ?g1"
        "\<forall>x y. getParent ?g1 x = Some y \<longrightarrow> getParent (link_rooms b rooms ?g1) x = Some y"
        "\<forall>q \<in> set rooms. getParent (link_rooms b rooms ?g1) (fst q) = Some b"
    by simp_all
  show ?case
    unfolding step
    using ih nodes1 ie(2) ie(3) keep pr by auto
qed

lemma parent_is_child:
  "getParent g r = Some b \<Longrightarrow> r \<in> children g b"
proof -
  assume "getParent g r = Some b"
  then have "(r, b) \<in> set (dsg_parents g)"
    by (simp add: getParent_def map_of_SomeD)
  then show ?thesis by (force simp: children_def)
qed

lemma room_lookup:
  assumes "distinct (map fst (dsg_nodes g))" and "p \<in> set (nodes_of_layer g ROOMS)"
  shows "getNode g (fst p) = Some (snd p) \<and> node_layer (snd p) = ROOMS"
  using assms by (auto simp: nodes_of_layer_def getNode_def)


lemma map_of_map_entry:
  "map_of (map (\<lambda>p. if fst p = b then (fst p, h (snd p)) else p) xs) i =
     (if i = b then map_option h (map_of xs i) else map_of xs i)"
  by (induction xs) auto

lemma filter_rooms_map_entry:
  "\<forall>p \<in> set xs. fst p = b \<longrightarrow> node_layer (snd p) \<noteq> ROOMS \<Longrightarrow>
   filter (\<lambda>p. node_layer (snd p) = ROOMS)
     (map (\<lambda>p. if fst p = b then (fst p, (snd p)\<lparr>node_position := c\<rparr>) else p) xs) =
   filter (\<lambda>p. node_layer (snd p) = ROOMS) xs"
  by (induction xs) auto

lemma emplace_building:
  assumes "hasLayer g BUILDINGS" and "\<not> hasNode g b"
  shows "getNode (emplaceNode g BUILDINGS b n) b = Some (n\<lparr>node_layer := BUILDINGS\<rparr>)"
    and "nodes_of_layer (emplaceNode g BUILDINGS b n) ROOMS = nodes_of_layer g ROOMS"
    and "dsg_parents (emplaceNode g BUILDINGS b n) = dsg_parents g"
    and "dsg_mesh (emplaceNode g BUILDINGS b n) = dsg_mesh g"
    and "i \<noteq> b \<Longrightarrow> getNode (emplaceNode g BUILDINGS b n) i = getNode g i"
  using assms
  by (auto simp: emplaceNode_def getNode_def hasNode_def nodes_of_layer_def map_add_def
        split: option.splits)

lemma setPosition_building:
  assumes "distinct (map fst (dsg_nodes g))"
    and "getNode g b = Some a" and "node_layer a = BUILDINGS"
  shows "getNode (setPosition g b c) b = Some (a\<lparr>node_position := c\<rparr>)"
    and "nodes_of_layer (setPosition g b c) ROOMS = nodes_of_layer g ROOMS"
    and "dsg_parents (setPosition g b c) = dsg_parents g"
    and "dsg_mesh (setPosition g b c) = dsg_mesh g"
    and "i \<noteq> b \<Longrightarrow> getNode (setPosition g b c) i = getNode g i"
proof -
  show "getNode (setPosition g b c) b = Some (a\<lparr>node_position := c\<rparr>)"
    using assms(2) by (simp add: setPosition_def getNode_def map_of_map_entry)
  have "\<forall>p \<in> set (dsg_nodes g). fst p = b \<longrightarrow> node_layer (snd p) \<noteq> ROOMS"
  proof (intro ballI impI)
    fix p assume p: "p \<in> set (dsg_nodes g)" "fst p = b"
    then have "map_of (dsg_nodes g) b = Some (snd p)"
      using assms(1) by (cases p) auto
    then show "node_layer (snd p) \<noteq> ROOMS"
      using assms(2,3) by (simp add: getNode_def)
  qed
  then show "nodes_of_layer (setPosition g b c) ROOMS = nodes_of_layer g ROOMS"
    by (simp add: setPosition_def nodes_of_layer_def filter_rooms_map_entry)
  show "dsg_parents (setPosition g b c) = dsg_parents g"
    by (simp add: setPosition_def)
  show "dsg_mesh (setPosition g b c) = dsg_mesh g"
    by (simp add: setPosition_def)
  show "i \<noteq> b \<Longrightarrow> getNode (setPosition g b c) i = getNode g i"
    by (simp add: setPosition_def getNode_def map_of_map_entry)
qed

lemma removeNode_building:
  "\<not> hasNode (removeNode g b) b"
  "nodes_of_layer g ROOMS = [] \<Longrightarrow> nodes_of_layer (removeNode g b) ROOMS = []"
proof -
  have "b \<notin> fst ` set (filter (\<lambda>p. fst p \<noteq> b) (dsg_nodes g))" by auto
  then show "\<not> hasNode (removeNode g b) b"
    by (simp add: hasNode_def removeNode_def map_of_eq_None_iff)
  show "nodes_of_layer g ROOMS = [] \<Longrightarrow> nodes_of_layer (removeNode g b) ROOMS = []"
    by (auto simp: nodes_of_layer_def removeNode_def filter_empty_conv)
qed

text \<open>
  What placing the building node and linking the rooms achieves, for any identifier \<open>b\<close>
  and any graph \<open>g1\<close> that already holds \<open>b\<close> as a building.
\<close>

lemma linked_building:
  assumes b: "getNode g1 b = Some a" "node_layer a = BUILDINGS"
    and rooms: "\<forall>p \<in> set rooms. \<exists>n. getNode g1 (fst p) = Some n \<and> node_layer n = ROOMS"
    and par: "\<forall>p \<in> set rooms. getParent g1 (fst p) = None \<or> getParent g1 (fst p) = Some b"
  shows "getNode (link_rooms b rooms g1) b = Some a \<and>
         nodes_of_layer (link_rooms b rooms g1) ROOMS = nodes_of_layer g1 ROOMS \<and>
         dsg_mesh (link_rooms b rooms g1) = dsg_mesh g1 \<and>
         (\<forall>p \<in> set rooms. getParent (link_rooms b rooms g1) (fst p) = Some b \<and>
                            fst p \<in> children (link_rooms b rooms g1) b)"
proof -
  from link_rooms_parents[OF b rooms par] have
    l: "dsg_nodes (link_rooms b rooms g1) = dsg_nodes g1"
       "dsg_mesh (link_rooms b rooms g1) = dsg_mesh g1"
       "\<forall>p \<in> set rooms. getParent (link_rooms b rooms g1) (fst p) = Some b"
    by simp_all
  show ?thesis
    using l b by (auto simp: getNode_def nodes_of_layer_def intro: parent_is_child)
qed

text \<open>
  C5. After the building maintenance step on a well-formed private graph (rooms and
  buildings layers present, identifiers unique, the building identifier used by no node
  of another layer, no room already under another parent), the building node with the
  fixed identifier exists in the private graph if and only if the rooms layer is
  non-empty; whenever it exists its position is the mean of the positions of all room
  nodes; and every room node is a child of the building node. Positions are reals here,
  so the mean is exact.
\<close>

theorem building_node_maintained:
  assumes "hasLayer (graph (private_dsg s)) ROOMS"
    and "hasLayer (graph (private_dsg s)) BUILDINGS"
    and "distinct (map fst (dsg_nodes (graph (private_dsg s))))"
    and "\<forall>n. getNode (graph (private_dsg s)) building_node_id = Some n \<longrightarrow>
             node_layer n = BUILDINGS"
    and "\<forall>p \<in> set (nodes_of_layer (graph (private_dsg s)) ROOMS).
           getParent (graph (private_dsg s)) (fst p) = None \<or>
           getParent (graph (private_dsg s)) (fst p) = Some building_node_id"
  shows "\<exists>s'. updateBuildingNode c s = Inr s' \<and>
           nodes_of_layer (graph (private_dsg s')) ROOMS =
             nodes_of_layer (graph (private_dsg s)) ROOMS \<and>
           (hasNode (graph (private_dsg s')) building_node_id \<longleftrightarrow>
              nodes_of_layer (graph (private_dsg s')) ROOMS \<noteq> []) \<and>
           (hasNode (graph (private_dsg s')) building_node_id \<longrightarrow>
              map_option node_position (getNode (graph (private_dsg s')) building_node_id) =
                Some (mean_position (map (\<lambda>p. node_position (snd p))
                                       (nodes_of_layer (graph (private_dsg s')) ROOMS)))) \<and>
           (\<forall>p \<in> set (nodes_of_layer (graph (private_dsg s')) ROOMS).
              getParent (graph (private_dsg s')) (fst p) = Some building_node_id \<and>
              fst p \<in> children (graph (private_dsg s')) building_node_id)"
proof -
  let ?g = "graph (private_dsg s)"
  let ?b = "building_node_id"
  let ?rooms = "nodes_of_layer ?g ROOMS"
  let ?L = "\<lparr>layer_nodes = ?rooms,
             layer_edges = filter (\<lambda>e. fst e \<in> fst ` set ?rooms \<and> snd e \<in> fst ` set ?rooms)
                             (dsg_edges ?g)\<rparr>"
  have layer: "getLayer ?g ROOMS = Some ?L"
    using assms(1) by (simp add: getLayer_def)
  show ?thesis
  proof (cases "?rooms = []")
    case True
    show ?thesis
    proof (cases "hasNode ?g ?b")
      case h: True
      have "updateBuildingNode c s =
              Inr (s\<lparr>private_dsg := (private_dsg s)\<lparr>graph := removeNode ?g ?b\<rparr>\<rparr>)"
        using layer True h by (simp add: updateBuildingNode_def Let_def numNodes_def)
      then show ?thesis
        using True removeNode_building[of ?g ?b] by simp
    next
      case h: False
      have "updateBuildingNode c s = Inr s"
        using layer True h by (simp add: updateBuildingNode_def Let_def numNodes_def)
      then show ?thesis using True h by simp
    qed
  next
    case False
    let ?c = "rooms_centroid ?L"
    let ?attrs = "\<lparr>node_layer = BUILDINGS, node_position = ?c, node_color = building_color s,
                   node_semantic_label = kBuildingSemanticLabel c,
                   node_name = getLabel c ?b, pcl_mesh_connections = []\<rparr>"
    let ?g1 = "if \<not> hasNode ?g ?b then emplaceNode ?g BUILDINGS ?b ?attrs
               else setPosition ?g ?b ?c"
    have res: "updateBuildingNode c s =
                 Inr (s\<lparr>private_dsg := (private_dsg s)\<lparr>graph := link_rooms ?b ?rooms ?g1\<rparr>\<rparr>)"
      using layer False
      by (simp add: updateBuildingNode_def Let_def numNodes_def link_rooms_def)
    have cm: "?c = mean_position (map (\<lambda>p. node_position (snd p)) ?rooms)"
      by (simp add: rooms_centroid_is_mean)
    have rl: "\<forall>p \<in> set ?rooms. getNode ?g (fst p) = Some (snd p) \<and> node_layer (snd p) = ROOMS"
      using room_lookup[OF assms(3)] by blast
    have g1: "\<exists>a. getNode ?g1 ?b = Some a \<and> node_layer a = BUILDINGS \<and> node_position a = ?c"
      and r1: "nodes_of_layer ?g1 ROOMS = ?rooms"
      and p1: "dsg_parents ?g1 = dsg_parents ?g"
      and o1: "\<forall>i. i \<noteq> ?b \<longrightarrow> getNode ?g1 i = getNode ?g i"
    proof -
      show "\<exists>a. getNode ?g1 ?b = Some a \<and> node_layer a = BUILDINGS \<and> node_position a = ?c"
      proof (cases "hasNode ?g ?b")
        case True
        then obtain a where a: "getNode ?g ?b = Some a"
          by (auto simp: hasNode_def getNode_def)
        then have "node_layer a = BUILDINGS" using assms(4) by simp
        from setPosition_building(1)[OF assms(3) a this, of ?c] show ?thesis
          using True \<open>node_layer a = BUILDINGS\<close> by simp
      next
        case False
        from emplace_building(1)[OF assms(2) False, of ?attrs] show ?thesis
          using False by simp
      qed
      show "nodes_of_layer ?g1 ROOMS = ?rooms"
      proof (cases "hasNode ?g ?b")
        case True
        then obtain a where a: "getNode ?g ?b = Some a"
          by (auto simp: hasNode_def getNode_def)
        then have "node_layer a = BUILDINGS" using assms(4) by simp
        from setPosition_building(2)[OF assms(3) a this, of ?c] show ?thesis
          using True by simp
      next
        case False
        from emplace_building(2)[OF assms(2) False, of ?attrs] show ?thesis
          using False by simp
      qed
      show "dsg_parents ?g1 = dsg_parents ?g"
        by (simp add: emplaceNode_def setPosition_def)
      show "\<forall>i. i \<noteq> ?b \<longrightarrow> getNode ?g1 i = getNode ?g i"
      proof (cases "hasNode ?g ?b")
        case True
        then obtain a where a: "getNode ?g ?b = Some a"
          by (auto simp: hasNode_def getNode_def)
        then have "node_layer a = BUILDINGS" using assms(4) by simp
        from setPosition_building(5)[OF assms(3) a this, of _ ?c] show ?thesis
          using True by simp
      next
        case False
        from emplace_building(5)[OF assms(2) False, of _ ?attrs] show ?thesis
          using False by simp
      qed
    qed
    from g1 obtain a where a: "getNode ?g1 ?b = Some a" "node_layer a = BUILDINGS"
      "node_position a = ?c" by blast
    have notb: "\<forall>p \<in> set ?rooms. fst p \<noteq> ?b"
    proof
      fix p assume p: "p \<in> set ?rooms"
      show "fst p \<noteq> ?b"
      proof
        assume "fst p = ?b"
        then have "getNode ?g ?b = Some (snd p)" "node_layer (snd p) = ROOMS"
          using rl p by auto
        then show False using assms(4) by auto
      qed
    qed
    have rooms1: "\<forall>p \<in> set ?rooms. \<exists>n. getNode ?g1 (fst p) = Some n \<and> node_layer n = ROOMS"
      using rl notb o1 by auto
    have par1: "\<forall>p \<in> set ?rooms. getParent ?g1 (fst p) = None \<or> getParent ?g1 (fst p) = Some ?b"
      using assms(5) p1 by (simp add: getParent_def)
    from linked_building[OF a(1,2) rooms1 par1] have
      fin: "getNode (link_rooms ?b ?rooms ?g1) ?b = Some a"
           "nodes_of_layer (link_rooms ?b ?rooms ?g1) ROOMS = nodes_of_layer ?g1 ROOMS"
           "\<forall>p \<in> set ?rooms. getParent (link_rooms ?b ?rooms ?g1) (fst p) = Some ?b \<and>
                              fst p \<in> children (link_rooms ?b ?rooms ?g1) ?b"
      by simp_all
    have hn: "hasNode (link_rooms ?b ?rooms ?g1) ?b"
      using fin(1) by (simp add: hasNode_def getNode_def)
    show ?thesis
      using res fin hn r1 a(3) cm False by simp
  qed
qed

theorem building_node_maintained_witness:
  "hasLayer (graph (private_dsg rooms_backend)) ROOMS \<and>
   hasLayer (graph (private_dsg rooms_backend)) BUILDINGS \<and>
   distinct (map fst (dsg_nodes (graph (private_dsg rooms_backend)))) \<and>
   getNode (graph (private_dsg rooms_backend)) building_node_id = None \<and>
   map fst (nodes_of_layer (graph (private_dsg rooms_backend)) ROOMS) = [21, 22] \<and>
   getParent (graph (private_dsg rooms_backend)) 21 = None \<and>
   getParent (graph (private_dsg rooms_backend)) 22 = None \<and>
   updateBuildingNode idle_externals rooms_backend =
     Inr (projr (updateBuildingNode idle_externals rooms_backend)) \<and>
   hasNode (graph (private_dsg (projr (updateBuildingNode idle_externals rooms_backend))))
     building_node_id \<and>
   map_option node_position
     (getNode (graph (private_dsg (projr (updateBuildingNode idle_externals rooms_backend))))
        building_node_id) = Some (2, 1, 0) \<and>
   getParent (graph (private_dsg (projr (updateBuildingNode idle_externals rooms_backend)))) 21 =
     Some building_node_id \<and>
   getParent (graph (private_dsg (projr (updateBuildingNode idle_externals rooms_backend)))) 22 =
     Some building_node_id"
proof -
  let ?g = "graph (private_dsg rooms_backend)"
  have h1: "hasLayer ?g ROOMS" and h2: "hasLayer ?g BUILDINGS"
    by (simp_all add: graph_example_defs hasLayer_def)
  have h3: "distinct (map fst (dsg_nodes ?g))"
    by (simp add: graph_example_defs)
  have nb: "getNode ?g building_node_id = None"
    by (simp add: graph_example_defs getNode_def building_node_id_def NodeSymbol_def)
  then have h4: "\<forall>n. getNode ?g building_node_id = Some n \<longrightarrow> node_layer n = BUILDINGS"
    by simp
  have rooms: "nodes_of_layer ?g ROOMS = [(21, room_node (0, 0, 0)), (22, room_node (4, 2, 0))]"
    by (simp add: graph_example_defs nodes_of_layer_def)
  have np: "getParent ?g 21 = None" "getParent ?g 22 = None"
    by (simp_all add: graph_example_defs getParent_def)
  have h5: "\<forall>p \<in> set (nodes_of_layer ?g ROOMS).
              getParent ?g (fst p) = None \<or> getParent ?g (fst p) = Some building_node_id"
    using rooms np by simp
  from building_node_maintained[OF h1 h2 h3 h4 h5, of idle_externals] obtain s' where
    s': "updateBuildingNode idle_externals rooms_backend = Inr s'"
        "nodes_of_layer (graph (private_dsg s')) ROOMS = nodes_of_layer ?g ROOMS"
        "hasNode (graph (private_dsg s')) building_node_id \<longleftrightarrow>
           nodes_of_layer (graph (private_dsg s')) ROOMS \<noteq> []"
        "hasNode (graph (private_dsg s')) building_node_id \<longrightarrow>
           map_option node_position (getNode (graph (private_dsg s')) building_node_id) =
             Some (mean_position (map (\<lambda>p. node_position (snd p))
                                    (nodes_of_layer (graph (private_dsg s')) ROOMS)))"
        "\<forall>p \<in> set (nodes_of_layer (graph (private_dsg s')) ROOMS).
           getParent (graph (private_dsg s')) (fst p) = Some building_node_id \<and>
           fst p \<in> children (graph (private_dsg s')) building_node_id"
    by blast
  have m: "mean_position (map (\<lambda>p. node_position (snd p)) (nodes_of_layer ?g ROOMS)) = (2, 1, 0)"
    by (simp add: rooms mean_position_def room_node_def)
  show ?thesis
    using h1 h2 h3 nb np s' rooms m by simp
qed


text \<open>
  The batch-mode finder on a well-formed graph: the building node ('B', 1) is in the
  result, with the attributes built by \<open>findBuildings\<close> when the identifier was free, and
  every room is its child.
\<close>

lemma findBuildings_links_rooms:
  assumes "hasLayer g ROOMS" and "hasLayer g BUILDINGS"
    and "distinct (map fst (dsg_nodes g))"
    and "\<forall>n. getNode g batch_building_id = Some n \<longrightarrow> node_layer n = BUILDINGS"
    and "\<forall>p \<in> set (nodes_of_layer g ROOMS).
           getParent g (fst p) = None \<or> getParent g (fst p) = Some batch_building_id"
  shows "\<exists>g'. findBuildings c (Some g) color = Inr g' \<and>
           hasNode g' batch_building_id \<and>
           (\<not> hasNode g batch_building_id \<longrightarrow>
              getNode g' batch_building_id =
                Some \<lparr>node_layer = BUILDINGS,
                      node_position =
                        pcl_centroid c (map (\<lambda>p. node_position (snd p)) (nodes_of_layer g ROOMS)),
                      node_color = color,
                      node_semantic_label = kBuildingSemanticLabel c,
                      node_name = node_to_string c batch_building_id,
                      pcl_mesh_connections = []\<rparr>) \<and>
           nodes_of_layer g' ROOMS = nodes_of_layer g ROOMS \<and>
           (\<forall>p \<in> set (nodes_of_layer g' ROOMS).
              getParent g' (fst p) = Some batch_building_id \<and>
              fst p \<in> children g' batch_building_id)"
proof -
  let ?b = "batch_building_id"
  let ?rooms = "nodes_of_layer g ROOMS"
  let ?attrs = "\<lparr>node_layer = BUILDINGS,
                 node_position = pcl_centroid c (map (\<lambda>p. node_position (snd p)) ?rooms),
                 node_color = color,
                 node_semantic_label = kBuildingSemanticLabel c,
                 node_name = node_to_string c ?b,
                 pcl_mesh_connections = []\<rparr>"
  let ?g1 = "emplaceNode g BUILDINGS ?b ?attrs"
  have res: "findBuildings c (Some g) color = Inr (link_rooms ?b ?rooms ?g1)"
    using assms(1) by (simp add: findBuildings_def getLayer_def Let_def link_rooms_def)
  have rl: "\<forall>p \<in> set ?rooms. getNode g (fst p) = Some (snd p) \<and> node_layer (snd p) = ROOMS"
    using room_lookup[OF assms(3)] by blast
  have notb: "\<forall>p \<in> set ?rooms. fst p \<noteq> ?b"
  proof
    fix p assume p: "p \<in> set ?rooms"
    show "fst p \<noteq> ?b"
    proof
      assume "fst p = ?b"
      then have "getNode g ?b = Some (snd p)" "node_layer (snd p) = ROOMS"
        using rl p by auto
      then show False using assms(4) by auto
    qed
  qed
  have g1: "\<exists>a. getNode ?g1 ?b = Some a \<and> node_layer a = BUILDINGS \<and>
                (\<not> hasNode g ?b \<longrightarrow> a = ?attrs)"
    and r1: "nodes_of_layer ?g1 ROOMS = ?rooms"
    and p1: "dsg_parents ?g1 = dsg_parents g"
    and o1: "\<forall>i. i \<noteq> ?b \<longrightarrow> getNode ?g1 i = getNode g i"
  proof -
    show "\<exists>a. getNode ?g1 ?b = Some a \<and> node_layer a = BUILDINGS \<and>
                (\<not> hasNode g ?b \<longrightarrow> a = ?attrs)"
    proof (cases "hasNode g ?b")
      case True
      then obtain a where a: "getNode g ?b = Some a"
        by (auto simp: hasNode_def getNode_def)
      then show ?thesis using True assms(4) by (simp add: emplaceNode_def)
    next
      case False
      from emplace_building(1)[OF assms(2) False, of ?attrs] show ?thesis
        using False by simp
    qed
    show "nodes_of_layer ?g1 ROOMS = ?rooms"
      by (simp add: emplaceNode_def nodes_of_layer_def)
    show "dsg_parents ?g1 = dsg_parents g"
      by (simp add: emplaceNode_def)
    show "\<forall>i. i \<noteq> ?b \<longrightarrow> getNode ?g1 i = getNode g i"
      by (auto simp: emplaceNode_def getNode_def map_add_def split: option.splits)
  qed
  from g1 obtain a where a: "getNode ?g1 ?b = Some a" "node_layer a = BUILDINGS"
    "\<not> hasNode g ?b \<longrightarrow> a = ?attrs" by blast
  have rooms1: "\<forall>p \<in> set ?rooms. \<exists>n. getNode ?g1 (fst p) = Some n \<and> node_layer n = ROOMS"
    using rl notb o1 by auto
  have par1: "\<forall>p \<in> set ?rooms. getParent ?g1 (fst p) = None \<or> getParent ?g1 (fst p) = Some ?b"
    using assms(5) p1 by (simp add: getParent_def)
  from linked_building[OF a(1,2) rooms1 par1] have
    fin: "getNode (link_rooms ?b ?rooms ?g1) ?b = Some a"
         "nodes_of_layer (link_rooms ?b ?rooms ?g1) ROOMS = nodes_of_layer ?g1 ROOMS"
         "\<forall>p \<in> set ?rooms. getParent (link_rooms ?b ?rooms ?g1) (fst p) = Some ?b \<and>
                            fst p \<in> children (link_rooms ?b ?rooms ?g1) ?b"
    by simp_all
  have hn: "hasNode (link_rooms ?b ?rooms ?g1) ?b"
    using fin(1) by (simp add: hasNode_def getNode_def)
  show ?thesis
    using res fin hn r1 a(3) by simp
qed

lemma updateBuildingNode_no_rooms:
  assumes "hasLayer (graph (private_dsg s)) ROOMS"
    and "nodes_of_layer (graph (private_dsg s)) ROOMS = []"
  shows "\<exists>s'. updateBuildingNode c s = Inr s' \<and>
           \<not> hasNode (graph (private_dsg s')) building_node_id"
proof -
  let ?g = "graph (private_dsg s)"
  let ?b = "building_node_id"
  let ?L = "\<lparr>layer_nodes = nodes_of_layer ?g ROOMS,
             layer_edges = filter (\<lambda>e. fst e \<in> fst ` set (nodes_of_layer ?g ROOMS) \<and>
                                        snd e \<in> fst ` set (nodes_of_layer ?g ROOMS))
                             (dsg_edges ?g)\<rparr>"
  have layer: "getLayer ?g ROOMS = Some ?L"
    using assms(1) by (simp add: getLayer_def)
  show ?thesis
  proof (cases "hasNode ?g ?b")
    case True
    have "updateBuildingNode c s =
            Inr (s\<lparr>private_dsg := (private_dsg s)\<lparr>graph := removeNode ?g ?b\<rparr>\<rparr>)"
      using layer assms(2) True by (simp add: updateBuildingNode_def Let_def numNodes_def)
    then show ?thesis
      using removeNode_building(1)[of ?g ?b] by simp
  next
    case False
    have "updateBuildingNode c s = Inr s"
      using layer assms(2) False by (simp add: updateBuildingNode_def Let_def numNodes_def)
    then show ?thesis using False by simp
  qed
qed

text \<open>
  C10. The claim as written does not hold for every input graph whose rooms layer exists:
  \<open>findBuildings\<close> tests only that the rooms layer exists and ignores what \<open>emplaceNode\<close>
  and \<open>insertEdge\<close> report, so on a graph that refuses the insertion (no buildings layer,
  or the identifier ('B', 1) already naming a node of another layer) no building node is
  created, and a room that already has another parent is not linked. What holds: on a
  graph that has the rooms and the buildings layer, whose identifiers are unique, in which
  ('B', 1) names no node of another layer and no room has a parent other than ('B', 1),
  \<open>findBuildings\<close> returns a graph that holds the building node ('B', 1), newly created
  with the point-cloud helper's centroid of the room positions when the identifier was
  free, and every room node is a child of it. No test on the number of rooms is made, so
  this includes a rooms layer of zero nodes, where the position of the new node is what
  the helper returns for no points; the incremental backend leaves every graph whose
  rooms layer is empty without its building node.
\<close>

theorem batch_building_created_and_linked:
  "(hasLayer g ROOMS \<and> hasLayer g BUILDINGS \<and> distinct (map fst (dsg_nodes g)) \<and>
    (\<forall>n. getNode g batch_building_id = Some n \<longrightarrow> node_layer n = BUILDINGS) \<and>
    (\<forall>p \<in> set (nodes_of_layer g ROOMS).
       getParent g (fst p) = None \<or> getParent g (fst p) = Some batch_building_id) \<longrightarrow>
    (\<exists>g'. findBuildings c (Some g) color = Inr g' \<and>
           hasNode g' batch_building_id \<and>
           (\<not> hasNode g batch_building_id \<longrightarrow>
              getNode g' batch_building_id =
                Some \<lparr>node_layer = BUILDINGS,
                      node_position =
                        pcl_centroid c (map (\<lambda>p. node_position (snd p)) (nodes_of_layer g ROOMS)),
                      node_color = color,
                      node_semantic_label = kBuildingSemanticLabel c,
                      node_name = node_to_string c batch_building_id,
                      pcl_mesh_connections = []\<rparr>) \<and>
           nodes_of_layer g' ROOMS = nodes_of_layer g ROOMS \<and>
           (\<forall>p \<in> set (nodes_of_layer g' ROOMS).
              getParent g' (fst p) = Some batch_building_id \<and>
              fst p \<in> children g' batch_building_id))) \<and>
   (hasLayer (graph (private_dsg s)) ROOMS \<and>
    nodes_of_layer (graph (private_dsg s)) ROOMS = [] \<longrightarrow>
    (\<exists>s'. updateBuildingNode c s = Inr s' \<and>
           \<not> hasNode (graph (private_dsg s')) building_node_id))"
proof (intro conjI impI)
  assume a: "hasLayer g ROOMS \<and> hasLayer g BUILDINGS \<and> distinct (map fst (dsg_nodes g)) \<and>
    (\<forall>n. getNode g batch_building_id = Some n \<longrightarrow> node_layer n = BUILDINGS) \<and>
    (\<forall>p \<in> set (nodes_of_layer g ROOMS).
       getParent g (fst p) = None \<or> getParent g (fst p) = Some batch_building_id)"
  then have h: "hasLayer g ROOMS" "hasLayer g BUILDINGS" "distinct (map fst (dsg_nodes g))"
    "\<forall>n. getNode g batch_building_id = Some n \<longrightarrow> node_layer n = BUILDINGS"
    "\<forall>p \<in> set (nodes_of_layer g ROOMS).
       getParent g (fst p) = None \<or> getParent g (fst p) = Some batch_building_id"
    by simp_all
  show "\<exists>g'. findBuildings c (Some g) color = Inr g' \<and>
           hasNode g' batch_building_id \<and>
           (\<not> hasNode g batch_building_id \<longrightarrow>
              getNode g' batch_building_id =
                Some \<lparr>node_layer = BUILDINGS,
                      node_position =
                        pcl_centroid c (map (\<lambda>p. node_position (snd p)) (nodes_of_layer g ROOMS)),
                      node_color = color,
                      node_semantic_label = kBuildingSemanticLabel c,
                      node_name = node_to_string c batch_building_id,
                      pcl_mesh_connections = []\<rparr>) \<and>
           nodes_of_layer g' ROOMS = nodes_of_layer g ROOMS \<and>
           (\<forall>p \<in> set (nodes_of_layer g' ROOMS).
              getParent g' (fst p) = Some batch_building_id \<and>
              fst p \<in> children g' batch_building_id)"
    by (rule findBuildings_links_rooms[OF h])
next
  assume a: "hasLayer (graph (private_dsg s)) ROOMS \<and>
    nodes_of_layer (graph (private_dsg s)) ROOMS = []"
  show "\<exists>s'. updateBuildingNode c s = Inr s' \<and>
           \<not> hasNode (graph (private_dsg s')) building_node_id"
    by (rule updateBuildingNode_no_rooms[OF conjunct1[OF a] conjunct2[OF a]])
qed

theorem batch_building_created_and_linked_witness:
  "hasLayer two_rooms_graph ROOMS \<and> hasLayer two_rooms_graph BUILDINGS \<and>
   distinct (map fst (dsg_nodes two_rooms_graph)) \<and>
   getNode two_rooms_graph batch_building_id = None \<and>
   map fst (nodes_of_layer two_rooms_graph ROOMS) = [21, 22] \<and>
   getParent two_rooms_graph 21 = None \<and> getParent two_rooms_graph 22 = None \<and>
   findBuildings centroid_externals (Some two_rooms_graph) (168, 7, 193) =
     Inr (projr (findBuildings centroid_externals (Some two_rooms_graph) (168, 7, 193))) \<and>
   hasNode (projr (findBuildings centroid_externals (Some two_rooms_graph) (168, 7, 193)))
     batch_building_id \<and>
   map_option node_position
     (getNode (projr (findBuildings centroid_externals (Some two_rooms_graph) (168, 7, 193)))
        batch_building_id) = Some (2, 1, 0) \<and>
   getParent (projr (findBuildings centroid_externals (Some two_rooms_graph) (168, 7, 193))) 21 =
     Some batch_building_id \<and>
   getParent (projr (findBuildings centroid_externals (Some two_rooms_graph) (168, 7, 193))) 22 =
     Some batch_building_id \<and>
   nodes_of_layer empty_graph ROOMS = [] \<and>
   hasNode (projr (findBuildings centroid_externals (Some empty_graph) (168, 7, 193)))
     batch_building_id \<and>
   map_option node_position
     (getNode (projr (findBuildings centroid_externals (Some empty_graph) (168, 7, 193)))
        batch_building_id) = Some (pcl_centroid centroid_externals []) \<and>
   hasLayer (graph (private_dsg backend_0)) ROOMS \<and>
   nodes_of_layer (graph (private_dsg backend_0)) ROOMS = [] \<and>
   updateBuildingNode centroid_externals backend_0 =
     Inr (projr (updateBuildingNode centroid_externals backend_0)) \<and>
   \<not> hasNode (graph (private_dsg (projr (updateBuildingNode centroid_externals backend_0))))
       building_node_id"
proof -
  let ?g = "two_rooms_graph"
  let ?col = "(168, 7, 193) :: nat \<times> nat \<times> nat"
  have h1: "hasLayer ?g ROOMS" and h2: "hasLayer ?g BUILDINGS"
    by (simp_all add: graph_example_defs hasLayer_def)
  have h3: "distinct (map fst (dsg_nodes ?g))"
    by (simp add: graph_example_defs)
  have nb: "getNode ?g batch_building_id = None"
    by (simp add: graph_example_defs getNode_def batch_building_id_def NodeSymbol_def)
  then have h4: "\<forall>n. getNode ?g batch_building_id = Some n \<longrightarrow> node_layer n = BUILDINGS"
    by simp
  have nh: "\<not> hasNode ?g batch_building_id"
    using nb by (simp add: hasNode_def getNode_def)
  have rooms: "nodes_of_layer ?g ROOMS = [(21, room_node (0, 0, 0)), (22, room_node (4, 2, 0))]"
    by (simp add: graph_example_defs nodes_of_layer_def)
  have np: "getParent ?g 21 = None" "getParent ?g 22 = None"
    by (simp_all add: graph_example_defs getParent_def)
  have h5: "\<forall>p \<in> set (nodes_of_layer ?g ROOMS).
              getParent ?g (fst p) = None \<or> getParent ?g (fst p) = Some batch_building_id"
    using rooms np by simp
  have e1: "hasLayer empty_graph ROOMS" and e2: "hasLayer empty_graph BUILDINGS"
    by (simp_all add: empty_graph_def hasLayer_def)
  have e3: "distinct (map fst (dsg_nodes empty_graph))"
    by (simp add: empty_graph_def)
  have eb: "getNode empty_graph batch_building_id = None"
    by (simp add: empty_graph_def getNode_def)
  then have e4: "\<forall>n. getNode empty_graph batch_building_id = Some n \<longrightarrow>
                      node_layer n = BUILDINGS"
    by simp
  have eh: "\<not> hasNode empty_graph batch_building_id"
    using eb by (simp add: hasNode_def getNode_def)
  have erooms: "nodes_of_layer empty_graph ROOMS = []"
    by (simp add: empty_graph_def nodes_of_layer_def)
  then have e5: "\<forall>p \<in> set (nodes_of_layer empty_graph ROOMS).
              getParent empty_graph (fst p) = None \<or>
              getParent empty_graph (fst p) = Some batch_building_id"
    by simp
  have i1: "hasLayer (graph (private_dsg backend_0)) ROOMS"
    and i2: "nodes_of_layer (graph (private_dsg backend_0)) ROOMS = []"
    by (simp_all add: backend_0_def DsgBackend_init_def empty_dsg_info_def empty_graph_def
          hasLayer_def nodes_of_layer_def)
  note T = batch_building_created_and_linked[of ?g centroid_externals ?col backend_0]
  from T h1 h2 h3 h4 h5 obtain g' where
    g': "findBuildings centroid_externals (Some ?g) ?col = Inr g'"
        "hasNode g' batch_building_id"
        "\<not> hasNode ?g batch_building_id \<longrightarrow>
           getNode g' batch_building_id =
             Some \<lparr>node_layer = BUILDINGS,
                   node_position = pcl_centroid centroid_externals
                      (map (\<lambda>p. node_position (snd p)) (nodes_of_layer ?g ROOMS)),
                   node_color = ?col,
                   node_semantic_label = kBuildingSemanticLabel centroid_externals,
                   node_name = node_to_string centroid_externals batch_building_id,
                   pcl_mesh_connections = []\<rparr>"
        "nodes_of_layer g' ROOMS = nodes_of_layer ?g ROOMS"
        "\<forall>p \<in> set (nodes_of_layer g' ROOMS).
           getParent g' (fst p) = Some batch_building_id \<and>
           fst p \<in> children g' batch_building_id"
    by blast
  from T i1 i2 obtain s' where
    s': "updateBuildingNode centroid_externals backend_0 = Inr s'"
        "\<not> hasNode (graph (private_dsg s')) building_node_id"
    by blast
  note E = batch_building_created_and_linked[of empty_graph centroid_externals ?col backend_0]
  from E e1 e2 e3 e4 e5 obtain g0 where
    g0: "findBuildings centroid_externals (Some empty_graph) ?col = Inr g0"
        "hasNode g0 batch_building_id"
        "\<not> hasNode empty_graph batch_building_id \<longrightarrow>
           getNode g0 batch_building_id =
             Some \<lparr>node_layer = BUILDINGS,
                   node_position = pcl_centroid centroid_externals
                      (map (\<lambda>p. node_position (snd p)) (nodes_of_layer empty_graph ROOMS)),
                   node_color = ?col,
                   node_semantic_label = kBuildingSemanticLabel centroid_externals,
                   node_name = node_to_string centroid_externals batch_building_id,
                   pcl_mesh_connections = []\<rparr>"
    by blast
  have m: "pcl_centroid centroid_externals
             (map (\<lambda>p. node_position (snd p)) (nodes_of_layer ?g ROOMS)) = (2, 1, 0)"
    by (simp add: rooms centroid_externals_def mean_position_def room_node_def)
  have pos: "map_option node_position (getNode g' batch_building_id) = Some (2, 1, 0)"
    using g'(3) nh m by simp
  have pos0: "map_option node_position (getNode g0 batch_building_id) =
                Some (pcl_centroid centroid_externals [])"
    using g0(3) eh erooms by simp
  have par: "getParent g' 21 = Some batch_building_id" "getParent g' 22 = Some batch_building_id"
    using g'(4,5) rooms by simp_all
  show ?thesis
    using h1 h2 h3 nb np rooms erooms i1 i2 g'(1,2) pos par g0(1,2) pos0 s' by simp
qed

text \<open>
  C10, the claim as written fails on three graphs whose rooms layer exists and holds one
  room. Without a buildings layer \<open>findBuildings\<close> returns the graph as it was, with no
  node ('B', 1). With the room already the child of the building ('B', 0), the node
  ('B', 1) is created but the room stays the child of ('B', 0). With ('B', 1) naming a
  place, the graph is returned as it was: no building node, and the room has no parent.
\<close>

theorem batch_building_not_created_counterexample:
  "hasLayer rooms_only_graph ROOMS \<and>
   map fst (nodes_of_layer rooms_only_graph ROOMS) = [21] \<and>
   findBuildings centroid_externals (Some rooms_only_graph) (168, 7, 193) =
     Inr rooms_only_graph \<and>
   \<not> hasNode rooms_only_graph batch_building_id \<and>
   hasLayer housed_room_graph ROOMS \<and>
   map fst (nodes_of_layer housed_room_graph ROOMS) = [21] \<and>
   map_sum id dsg_parents
     (findBuildings centroid_externals (Some housed_room_graph) (168, 7, 193)) =
     Inr [(21, building_node_id)] \<and>
   building_node_id \<noteq> batch_building_id \<and>
   hasLayer taken_id_graph ROOMS \<and>
   map fst (nodes_of_layer taken_id_graph ROOMS) = [21] \<and>
   findBuildings centroid_externals (Some taken_id_graph) (168, 7, 193) = Inr taken_id_graph \<and>
   map_option node_layer (getNode taken_id_graph batch_building_id) = Some PLACES \<and>
   getParent taken_id_graph 21 = None"
  by (simp add: rooms_only_graph_def housed_room_graph_def taken_id_graph_def
        centroid_externals_def idle_externals_def empty_graph_def room_node_def place_node_def
        building_node_def findBuildings_def graph_defs building_node_id_def
        batch_building_id_def NodeSymbol_def Let_def)

section \<open>Room detection\<close>













end
